theory Spec2Isabelle
  imports Main "HOL-Library.Sublist"
begin

section \<open>Data model\<close>

text \<open>
  The row class \<open>Session\<close> of \<open>app/models/chat.py\<close>. Times are seconds on the UTC clock
  (\<open>datetime.utcnow()\<close>), as integers; \<open>end_time\<close> is the only nullable column that the
  session manager reads.
\<close>

record Session =
  session_id :: nat
  room_id :: nat
  user_a_id :: int
  user_b_id :: int
  topic :: string
  start_time :: int
  end_time :: "int option"
  extension_used :: bool

definition topic_1_situation :: string where
  "topic_1_situation = ''topic_1_situation''"

definition topic_2_emotion :: string where
  "topic_2_emotion = ''topic_2_emotion''"

text \<open>\<open>settings.SESSION_DURATION_MINUTES\<close> of \<open>app/config.py\<close>, and the
  \<open>timedelta(minutes=...)\<close> built from it, in seconds.\<close>

definition SESSION_DURATION_MINUTES :: int where
  "SESSION_DURATION_MINUTES = 1"

definition session_timeout_duration :: int where
  "session_timeout_duration = 60 * SESSION_DURATION_MINUTES"

text \<open>
  Outbound payloads. The user-facing texts are fixed Korean sentences in the source; each
  is one constructor here, with the topic display name (\<open>topic_display\<close>) that the
  source splices into the sentence. The \<open>timestamp\<close> entry of a payload is left out.
\<close>

datatype topic_display = Display_situation | Display_emotion

datatype content =
    Intro_text
  | Situation_start_text
  | Extension_prompt_text topic_display
  | Waiting_text
  | Extended_all_yes_text topic_display
  | Extended_one_yes_text topic_display
  | Emotion_start_text
  | Chat_end_text
  | User_text string

record message =
  mtype :: string
  content :: content
  msg_session_id :: "nat option"
  msg_topic :: "string option"
  msg_user_id :: "string option"

definition system_message :: "content \<Rightarrow> message" where
  "system_message c =
     \<lparr>mtype = ''system'', content = c, msg_session_id = None, msg_topic = None,
      msg_user_id = None\<rparr>"

definition session_message :: "content \<Rightarrow> Session \<Rightarrow> message" where
  "session_message c s =
     \<lparr>mtype = ''session'', content = c, msg_session_id = Some (session_id s),
      msg_topic = Some (topic s), msg_user_id = None\<rparr>"

definition display_name :: "string \<Rightarrow> topic_display" where
  "display_name t = (if t = topic_1_situation then Display_situation else Display_emotion)"

section \<open>Python dictionaries and int()\<close>

text \<open>
  The inner dictionaries (user id to websocket, user id to vote) keep insertion order, and
  the code reads \<open>list(d.keys())[0]\<close>, so they are association lists: assigning to a
  present key keeps its place, a new key goes to the end.
\<close>

fun dict_set :: "'k \<Rightarrow> 'v \<Rightarrow> ('k \<times> 'v) list \<Rightarrow> ('k \<times> 'v) list" where
  "dict_set k v [] = [(k, v)]"
| "dict_set k v (p # ps) = (if fst p = k then (k, v) # ps else p # dict_set k v ps)"

definition dict_del :: "'k \<Rightarrow> ('k \<times> 'v) list \<Rightarrow> ('k \<times> 'v) list" where
  "dict_del k d = filter (\<lambda>p. fst p \<noteq> k) d"

definition dict_has :: "'k \<Rightarrow> ('k \<times> 'v) list \<Rightarrow> bool" where
  "dict_has k d = (map_of d k \<noteq> None)"

text \<open>
  \<open>int(s)\<close> on a string, base 10: surrounding whitespace is stripped, one sign is allowed,
  then digits, with single underscores between digits. Anything else raises ValueError
  (\<open>None\<close>). Strings here are byte strings, so only ASCII digits and whitespace occur.
\<close>

definition py_isspace :: "char \<Rightarrow> bool" where
  "py_isspace c = (let n = (of_char c :: nat) in (9 \<le> n \<and> n \<le> 13) \<or> (28 \<le> n \<and> n \<le> 32))"

definition digit_val :: "char \<Rightarrow> nat option" where
  "digit_val c = (let n = (of_char c :: nat) in if 48 \<le> n \<and> n \<le> 57 then Some (n - 48) else None)"

fun parse_digits :: "string \<Rightarrow> nat \<Rightarrow> nat option" where
  "parse_digits [] acc = Some acc"
| "parse_digits [c] acc =
     (case digit_val c of None \<Rightarrow> None | Some v \<Rightarrow> Some (10 * acc + v))"
| "parse_digits (c # d # ds) acc =
     (if c = CHR ''_'' then
        (case digit_val d of None \<Rightarrow> None | Some v \<Rightarrow> parse_digits ds (10 * acc + v))
      else
        (case digit_val c of None \<Rightarrow> None | Some v \<Rightarrow> parse_digits (d # ds) (10 * acc + v)))"

definition parse_unsigned :: "string \<Rightarrow> nat option" where
  "parse_unsigned cs =
     (case cs of [] \<Rightarrow> None
      | d # ds \<Rightarrow> (case digit_val d of None \<Rightarrow> None | Some v \<Rightarrow> parse_digits ds v))"

definition py_int :: "string \<Rightarrow> int option" where
  "py_int s =
     (let u = rev (dropWhile py_isspace (rev (dropWhile py_isspace s)))
      in case u of
           [] \<Rightarrow> None
         | c # cs \<Rightarrow>
             if c = CHR ''-'' then map_option (\<lambda>n. - int n) (parse_unsigned cs)
             else if c = CHR ''+'' then map_option int (parse_unsigned cs)
             else map_option int (parse_unsigned u))"

section \<open>The database collaborator\<close>

text \<open>
  The tables the session manager touches: the rows of \<open>sessions\<close> in insertion order with
  the autoincrement counter, and the ids of the rows of \<open>rooms\<close>. \<open>db.get\<close> reads the
  stored row; an attribute assignment followed by a successful \<open>db.commit()\<close> writes it.
  A commit may raise: the outcomes of the commits that one handler performs are given, in
  order, by a list of booleans, and a commit with no entry succeeds. A failed commit leaves
  the tables as they were.
\<close>

record database =
  sessions :: "Session list"
  next_session_id :: nat
  room_rows :: "nat list"

definition commit_ok :: "bool list \<Rightarrow> nat \<Rightarrow> bool" where
  "commit_ok oks k = (k < length oks \<longrightarrow> oks ! k)"

definition db_get :: "database \<Rightarrow> nat \<Rightarrow> Session option" where
  "db_get d i = find (\<lambda>s. session_id s = i) (sessions d)"

definition db_store :: "Session \<Rightarrow> database \<Rightarrow> database" where
  "db_store r d =
     d\<lparr>sessions := map (\<lambda>s. if session_id s = session_id r then r else s) (sessions d)\<rparr>"

definition new_Session :: "nat \<Rightarrow> int \<Rightarrow> int \<Rightarrow> string \<Rightarrow> int \<Rightarrow> Session" where
  "new_Session room a b t now =
     \<lparr>session_id = 0, room_id = room, user_a_id = a, user_b_id = b, topic = t,
      start_time = now, end_time = None, extension_used = False\<rparr>"

definition refreshed :: "database \<Rightarrow> Session \<Rightarrow> Session" where
  "refreshed d s = s\<lparr>session_id := next_session_id d\<rparr>"

definition db_insert :: "Session \<Rightarrow> database \<Rightarrow> database" where
  "db_insert s d =
     d\<lparr>sessions := sessions d @ [refreshed d s], next_session_id := Suc (next_session_id d)\<rparr>"

section \<open>SessionManager (app/session.py)\<close>

text \<open>
  Every task that \<open>asyncio.create_task(self._check_session_timeout(...))\<close> has created is
  kept in \<open>tasks\<close>, by creation index, with the room and \<open>target_session_id\<close> it was armed
  for; \<open>session_tasks\<close> maps a room to the index of the task stored for it. A task is live
  while it is \<open>Pending\<close>.
\<close>

datatype task_state = Pending | Cancelled | Finished

record timer_task =
  task_room :: nat
  target_session_id :: nat
  task_state :: task_state

record SessionManager =
  room_sessions :: "nat \<Rightarrow> Session option"
  session_tasks :: "nat \<Rightarrow> nat option"
  session_responses :: "nat \<Rightarrow> (string \<times> bool) list option"
  tasks :: "timer_task list"

text \<open>
  The manager's methods run on the manager, the database and the calls made to the injected
  \<open>broadcaster\<close>, recorded in order in \<open>outbox\<close> as (room, payload, target user). The
  injected \<open>active_connections_provider\<close> is the parameter \<open>prov\<close>.
\<close>

record world =
  mgr :: SessionManager
  db :: database
  outbox :: "(nat \<times> message \<times> string option) list"

datatype error = CommitFailed | ValueError

definition broadcaster :: "nat \<Rightarrow> message \<Rightarrow> string option \<Rightarrow> world \<Rightarrow> world" where
  "broadcaster room m target w = w\<lparr>outbox := outbox w @ [(room, m, target)]\<rparr>"

definition cancel :: "nat \<Rightarrow> timer_task list \<Rightarrow> timer_task list" where
  "cancel i ts =
     (if i < length ts \<and> task_state (ts ! i) = Pending
      then ts[i := (ts ! i)\<lparr>task_state := Cancelled\<rparr>] else ts)"

definition cancel_room_task :: "nat \<Rightarrow> SessionManager \<Rightarrow> SessionManager" where
  "cancel_room_task room m =
     (case session_tasks m room of
        None \<Rightarrow> m
      | Some i \<Rightarrow> m\<lparr>tasks := cancel i (tasks m)\<rparr>)"

definition create_task :: "nat \<Rightarrow> nat \<Rightarrow> SessionManager \<Rightarrow> SessionManager" where
  "create_task room target m =
     m\<lparr>session_tasks := (session_tasks m)(room \<mapsto> length (tasks m)),
       tasks := tasks m @ [\<lparr>task_room = room, target_session_id = target, task_state = Pending\<rparr>]\<rparr>"

definition get_current_session :: "SessionManager \<Rightarrow> nat \<Rightarrow> Session option" where
  "get_current_session m room = room_sessions m room"

definition clear_room_session_data :: "nat \<Rightarrow> SessionManager \<Rightarrow> SessionManager" where
  "clear_room_session_data room m =
     (let m1 = m\<lparr>room_sessions := (room_sessions m)(room := None)\<rparr>;
          m2 = (cancel_room_task room m1)\<lparr>session_tasks := (session_tasks m1)(room := None)\<rparr>
      in m2\<lparr>session_responses := (session_responses m2)(room := None)\<rparr>)"

definition start_new_initial_session ::
  "nat \<Rightarrow> int \<Rightarrow> int \<Rightarrow> int \<Rightarrow> bool list \<Rightarrow> world \<Rightarrow> world \<times> Session option" where
  "start_new_initial_session room a b now oks w =
     (case room_sessions (mgr w) room of
        Some s \<Rightarrow> (w, Some s)
      | None \<Rightarrow>
          if \<not> commit_ok oks 0 then (w, None)
          else
            let new_session = refreshed (db w) (new_Session room a b topic_1_situation now);
                d = db_insert (new_Session room a b topic_1_situation now) (db w);
                m1 = (mgr w)\<lparr>room_sessions := (room_sessions (mgr w))(room \<mapsto> new_session)\<rparr>;
                m2 = create_task room (session_id new_session) (cancel_room_task room m1);
                w1 = w\<lparr>mgr := m2, db := d\<rparr>;
                w2 = broadcaster room (system_message Intro_text) None w1;
                w3 = broadcaster room (session_message Situation_start_text new_session) None w2
            in (w3, Some new_session))"

text \<open>
  The \<open>try\<close> block of \<open>start_new_initial_session\<close>, which a call enters once it has
  found no entry for the room. It awaits the commit before it assigns the room's entry, so
  a second call for the same room can pass the test in between.
\<close>

definition start_after_guard ::
  "nat \<Rightarrow> int \<Rightarrow> int \<Rightarrow> int \<Rightarrow> bool list \<Rightarrow> world \<Rightarrow> world \<times> Session option" where
  "start_after_guard room a b now oks w =
     (if \<not> commit_ok oks 0 then (w, None)
      else
        let new_session = refreshed (db w) (new_Session room a b topic_1_situation now);
            d = db_insert (new_Session room a b topic_1_situation now) (db w);
            m1 = (mgr w)\<lparr>room_sessions := (room_sessions (mgr w))(room \<mapsto> new_session)\<rparr>;
            m2 = create_task room (session_id new_session) (cancel_room_task room m1);
            w1 = w\<lparr>mgr := m2, db := d\<rparr>;
            w2 = broadcaster room (system_message Intro_text) None w1;
            w3 = broadcaster room (session_message Situation_start_text new_session) None w2
        in (w3, Some new_session))"

definition transition_to_emotion_topic ::
  "(nat \<Rightarrow> (string \<times> nat) list) \<Rightarrow> nat \<Rightarrow> Session \<Rightarrow> int \<Rightarrow> bool list \<Rightarrow> world
     \<Rightarrow> world \<times> error option" where
  "transition_to_emotion_topic prov room ended_situation_session now oks w =
     (if \<not> commit_ok oks 0 then (w, Some CommitFailed)
      else
        let w1 = w\<lparr>db := db_store (ended_situation_session\<lparr>end_time := Some now\<rparr>) (db w)\<rparr>;
            connected_user_ids = map fst (prov room)
        in if length connected_user_ids < 2 then (w1, None)
           else
             (case py_int (connected_user_ids ! 0) of
                None \<Rightarrow> (w1, Some ValueError)
              | Some a \<Rightarrow>
                 (case py_int (connected_user_ids ! 1) of
                    None \<Rightarrow> (w1, Some ValueError)
                  | Some b \<Rightarrow>
                      if \<not> commit_ok oks 1 then (w1, Some CommitFailed)
                      else
                        let new_emotion_session =
                              refreshed (db w1) (new_Session room a b topic_2_emotion now);
                            d = db_insert (new_Session room a b topic_2_emotion now) (db w1);
                            m1 = (mgr w1)\<lparr>room_sessions :=
                                   (room_sessions (mgr w1))(room \<mapsto> new_emotion_session)\<rparr>;
                            m2 = create_task room (session_id new_emotion_session)
                                   (cancel_room_task room m1);
                            w2 = w1\<lparr>mgr := m2, db := d\<rparr>
                        in (broadcaster room
                              (session_message Emotion_start_text new_emotion_session) None w2,
                            None))))"

definition end_chat_after_emotion_extension ::
  "nat \<Rightarrow> Session \<Rightarrow> int \<Rightarrow> bool list \<Rightarrow> world \<Rightarrow> world \<times> error option" where
  "end_chat_after_emotion_extension room ended_emotion_session now oks w =
     (if \<not> commit_ok oks 0 then (w, Some CommitFailed)
      else
        let w1 = w\<lparr>db := db_store (ended_emotion_session\<lparr>end_time := Some now\<rparr>) (db w)\<rparr>;
            w2 = broadcaster room (system_message Chat_end_text) None w1
        in (w2\<lparr>mgr := clear_room_session_data room (mgr w2)\<rparr>, None))"

text \<open>
  One iteration of the \<open>while True\<close> loop of \<open>_check_session_timeout\<close>, after its
  \<open>asyncio.sleep(10)\<close>, at time \<open>now\<close>. The boolean is \<open>True\<close> when the loop goes round
  again and \<open>False\<close> when it leaves the loop (\<open>break\<close>, or an exception, which the method
  catches and logs), so that the task ends. \<open>start_time\<close> is never null in this model, so
  the check for a missing \<open>start_time\<close> has no branch.
\<close>

definition check_session_timeout ::
  "(nat \<Rightarrow> (string \<times> nat) list) \<Rightarrow> nat \<Rightarrow> nat \<Rightarrow> int \<Rightarrow> bool list \<Rightarrow> world \<Rightarrow> world \<times> bool" where
  "check_session_timeout prov room target now oks w =
     (case room_sessions (mgr w) room of
        None \<Rightarrow> (w, False)
      | Some session \<Rightarrow>
          if session_id session \<noteq> target then (w, False)
          else if now - start_time session \<ge> session_timeout_duration then
            (case db_get (db w) (session_id session) of
               None \<Rightarrow> (w, False)
             | Some session_from_db \<Rightarrow>
                 if extension_used session_from_db then
                   (if topic session_from_db = topic_1_situation then
                      (fst (transition_to_emotion_topic prov room session_from_db now oks w), False)
                    else if topic session_from_db = topic_2_emotion then
                      (fst (end_chat_after_emotion_extension room session_from_db now oks w), False)
                    else (w, False))
                 else
                   let w1 = broadcaster room
                              ((system_message
                                  (Extension_prompt_text (display_name (topic session_from_db))))
                                 \<lparr>msg_session_id := Some (session_id session_from_db)\<rparr>)
                              None w
                   in (w1\<lparr>mgr := (mgr w1)\<lparr>session_responses :=
                              (session_responses (mgr w1))(room \<mapsto> [])\<rparr>\<rparr>, False))
          else (w, True))"

definition del_responses :: "nat \<Rightarrow> world \<Rightarrow> world" where
  "del_responses room w =
     w\<lparr>mgr := (mgr w)\<lparr>session_responses := (session_responses (mgr w))(room := None)\<rparr>\<rparr>"

text \<open>
  \<open>add_session_response\<close> returns nothing on every path; the second component is the
  exception that leaves the method, which is never one of the modelled ones: the commits
  are inside its \<open>try\<close>, whose handler logs and rolls back.
\<close>

definition add_session_response ::
  "(nat \<Rightarrow> (string \<times> nat) list) \<Rightarrow> nat \<Rightarrow> string \<Rightarrow> bool \<Rightarrow> int \<Rightarrow> bool list \<Rightarrow> world
     \<Rightarrow> world \<times> error option" where
  "add_session_response prov room user_id response now oks w =
     (let responses0 = (case session_responses (mgr w) room of None \<Rightarrow> [] | Some d \<Rightarrow> d);
          responses_map = dict_set user_id response responses0;
          w0 = w\<lparr>mgr := (mgr w)\<lparr>session_responses :=
                  (session_responses (mgr w))(room \<mapsto> responses_map)\<rparr>\<rparr>
      in case room_sessions (mgr w0) room of
           None \<Rightarrow> (del_responses room w0, None)
         | Some current_session_in_mgr \<Rightarrow>
             if length (prov room) < 2 then (w0, None)
             else if length responses_map = 1 then
               (broadcaster room (system_message Waiting_text) (Some user_id) w0, None)
             else if length responses_map = 2 then
               (let all_yes = list_all snd responses_map;
                    any_yes = list_ex snd responses_map
                in case db_get (db w0) (session_id current_session_in_mgr) of
                     None \<Rightarrow> (del_responses room w0, None)
                   | Some session_to_modify \<Rightarrow>
                       if all_yes \<or> any_yes then
                         (if \<not> commit_ok oks 0 then (w0, None)
                          else
                            let topic_display = display_name (topic session_to_modify);
                                text = (if all_yes then Extended_all_yes_text topic_display
                                        else Extended_one_yes_text topic_display);
                                modified = session_to_modify
                                             \<lparr>extension_used := True, start_time := now\<rparr>;
                                w1 = w0\<lparr>db := db_store modified (db w0)\<rparr>;
                                w2 = w1\<lparr>mgr := (mgr w1)\<lparr>room_sessions :=
                                        (room_sessions (mgr w1))(room \<mapsto> modified)\<rparr>\<rparr>;
                                w3 = broadcaster room (session_message text modified) None w2;
                                w4 = w3\<lparr>mgr := create_task room (session_id modified)
                                                  (cancel_room_task room (mgr w3))\<rparr>
                            in (del_responses room w4, None))
                       else if topic session_to_modify = topic_1_situation then
                         (case transition_to_emotion_topic prov room session_to_modify now oks w0 of
                            (w1, None) \<Rightarrow> (del_responses room w1, None)
                          | (w1, Some e) \<Rightarrow> (w1, None))
                       else if topic session_to_modify = topic_2_emotion then
                         (case end_chat_after_emotion_extension room session_to_modify now oks w0 of
                            (w1, None) \<Rightarrow> (del_responses room w1, None)
                          | (w1, Some e) \<Rightarrow> (w1, None))
                       else (del_responses room w0, None))
             else (w0, None))"

definition end_session_for_room :: "nat \<Rightarrow> int \<Rightarrow> bool list \<Rightarrow> world \<Rightarrow> world" where
  "end_session_for_room room now oks w =
     (let w1 =
        (case room_sessions (mgr w) room of
           None \<Rightarrow> w
         | Some current_session \<Rightarrow>
             if end_time current_session = None then
               (case db_get (db w) (session_id current_session) of
                  None \<Rightarrow> w
                | Some db_session \<Rightarrow>
                    if end_time db_session = None then
                      (if \<not> commit_ok oks 0 then w
                       else
                         let closed = db_session\<lparr>end_time := Some now\<rparr>
                         in w\<lparr>db := db_store closed (db w),
                              mgr := (mgr w)\<lparr>room_sessions :=
                                       (room_sessions (mgr w))(room \<mapsto> closed)\<rparr>\<rparr>)
                    else w)
             else w)
      in w1\<lparr>mgr := clear_room_session_data room (mgr w1)\<rparr>)"

section \<open>ConnectionManager (app/connection_manager.py)\<close>

text \<open>
  A websocket is named by a number. \<open>pending_messages\<close> holds, for a room, the items of its
  \<open>asyncio.Queue(maxsize=100)\<close>, oldest first; an item is the payload and the target user.
  \<open>message_processor_tasks\<close> is true for a room whose \<open>process_messages\<close> task is stored
  and not done. \<open>connect\<close> and \<open>disconnect\<close> run under the room's lock, so each is one
  step.
\<close>

record ConnectionManager =
  active_connections :: "nat \<Rightarrow> (string \<times> nat) list option"
  pending_messages :: "nat \<Rightarrow> (message \<times> string option) list option"
  message_processor_tasks :: "nat \<Rightarrow> bool"

definition queue_maxsize :: nat where
  "queue_maxsize = 100"

definition get_active_connections_for_room ::
  "ConnectionManager \<Rightarrow> nat \<Rightarrow> (string \<times> nat) list" where
  "get_active_connections_for_room c room =
     (case active_connections c room of None \<Rightarrow> [] | Some d \<Rightarrow> d)"

definition connect :: "nat \<Rightarrow> nat \<Rightarrow> string \<Rightarrow> ConnectionManager \<Rightarrow> ConnectionManager" where
  "connect websocket room user_id c =
     (let c1 = (case active_connections c room of
                  None \<Rightarrow> c\<lparr>active_connections := (active_connections c)(room \<mapsto> []),
                            pending_messages := (pending_messages c)(room \<mapsto> [])\<rparr>
                | Some d \<Rightarrow> c);
          c2 = c1\<lparr>active_connections := (active_connections c1)
                    (room \<mapsto> dict_set user_id websocket (get_active_connections_for_room c1 room))\<rparr>
      in c2\<lparr>message_processor_tasks := (message_processor_tasks c2)(room := True)\<rparr>)"

definition disconnect :: "nat \<Rightarrow> string \<Rightarrow> ConnectionManager \<Rightarrow> ConnectionManager" where
  "disconnect room user_id c =
     (case active_connections c room of
        None \<Rightarrow> c
      | Some d \<Rightarrow>
          if \<not> dict_has user_id d then c
          else
            let d' = dict_del user_id d
            in if d' = [] then
                 c\<lparr>active_connections := (active_connections c)(room := None),
                   message_processor_tasks := (message_processor_tasks c)(room := False),
                   pending_messages := (pending_messages c)(room := None)\<rparr>
               else c\<lparr>active_connections := (active_connections c)(room \<mapsto> d')\<rparr>)"

text \<open>
  \<open>await queue.put(item)\<close> on a queue that holds \<open>maxsize\<close> items does not return until
  a slot is free: the call is then \<open>Suspended\<close>, with the manager as the caller left it
  while it waits, and the item still in the caller's hands. Otherwise the item is
  \<open>Queued\<close> at the end.
\<close>

datatype put_result = Queued ConnectionManager | Suspended ConnectionManager

definition broadcast_to_room ::
  "nat \<Rightarrow> message \<Rightarrow> string option \<Rightarrow> ConnectionManager \<Rightarrow> put_result" where
  "broadcast_to_room room m target_user_id c =
     (let c1 = (case pending_messages c room of
                  None \<Rightarrow> c\<lparr>pending_messages := (pending_messages c)(room \<mapsto> []),
                            message_processor_tasks := (message_processor_tasks c)(room := True)\<rparr>
                | Some q \<Rightarrow> c);
          q = (case pending_messages c1 room of None \<Rightarrow> [] | Some q \<Rightarrow> q)
      in if length q < queue_maxsize
         then Queued (c1\<lparr>pending_messages := (pending_messages c1)(room \<mapsto> q @ [(m, target_user_id)])\<rparr>)
         else Suspended c1)"

definition sockets_to_send ::
  "(string \<times> nat) list \<Rightarrow> string option \<Rightarrow> (nat \<times> string) list" where
  "sockets_to_send room_connections target_user_id =
     (let everyone = map (\<lambda>(uid, ws). (ws, uid)) room_connections
      in case target_user_id of
           None \<Rightarrow> everyone
         | Some u \<Rightarrow>
             if u = [] then everyone
             else (case map_of room_connections u of
                     None \<Rightarrow> []
                   | Some ws \<Rightarrow> [(ws, u)]))"

text \<open>
  One iteration of the loop of \<open>process_messages\<close> for a room: \<open>failed\<close> lists the
  websockets on which \<open>send_json\<close> raises this time. The second component is what was
  sent successfully: (room, user, websocket, payload). With an empty queue \<open>get()\<close> waits
  and nothing happens.
\<close>

definition process_messages ::
  "nat \<Rightarrow> nat list \<Rightarrow> ConnectionManager
     \<Rightarrow> ConnectionManager \<times> (nat \<times> string \<times> nat \<times> message) list" where
  "process_messages room failed c =
     (if \<not> message_processor_tasks c room then (c, [])
      else
        case pending_messages c room of
          None \<Rightarrow> (c\<lparr>message_processor_tasks := (message_processor_tasks c)(room := False)\<rparr>, [])
        | Some [] \<Rightarrow> (c, [])
        | Some (queued_item # rest) \<Rightarrow>
            let c1 = c\<lparr>pending_messages := (pending_messages c)(room \<mapsto> rest)\<rparr>;
                room_connections = get_active_connections_for_room c room
            in if room_connections = [] then (c1, [])
               else
                 (c1, map (\<lambda>(ws, uid). (room, uid, ws, fst queued_item))
                        (filter (\<lambda>(ws, uid). ws \<notin> set failed)
                           (sockets_to_send room_connections (snd queued_item)))))"

section \<open>The websocket endpoint (app/routers/websockets.py) and the whole system\<close>

text \<open>
  \<open>wire\<close> is what the websockets have been sent through the room queues, in order. The
  endpoint's own replies on the caller's socket (pong, error, chat history) and the chat
  log table are not part of the model.
\<close>

record system =
  conn :: ConnectionManager
  wld :: world
  wire :: "(nat \<times> string \<times> nat \<times> message) list"

text \<open>The \<open>finally\<close> block of the endpoint.\<close>

definition cleanup :: "nat \<Rightarrow> string \<Rightarrow> int \<Rightarrow> bool list \<Rightarrow> system \<Rightarrow> system" where
  "cleanup room user_id now oks s =
     (let s1 = s\<lparr>conn := disconnect room user_id (conn s)\<rparr>;
          remaining = length (get_active_connections_for_room (conn s1) room)
      in if remaining = 0 then
           (case get_current_session (mgr (wld s1)) room of
              None \<Rightarrow> s1
            | Some sess \<Rightarrow> s1\<lparr>wld := end_session_for_room room now oks (wld s1)\<rparr>)
         else s1)"

text \<open>The endpoint from \<open>connect\<close> to the start of its receive loop.\<close>

definition on_join :: "nat \<Rightarrow> string \<Rightarrow> nat \<Rightarrow> int \<Rightarrow> bool list \<Rightarrow> system \<Rightarrow> system" where
  "on_join room user_id websocket now oks s =
     (if user_id = [] then cleanup room user_id now oks s
      else
        let s1 = s\<lparr>conn := connect websocket room user_id (conn s)\<rparr>
        in if room \<notin> set (room_rows (db (wld s1))) then
             cleanup room user_id now oks (s1\<lparr>conn := disconnect room user_id (conn s1)\<rparr>)
           else
             let active = get_active_connections_for_room (conn s1) room
             in if length active = 2 \<and> get_current_session (mgr (wld s1)) room = None then
                  (case py_int (fst (active ! 0)) of
                     None \<Rightarrow> s1
                   | Some a \<Rightarrow>
                      (case py_int (fst (active ! 1)) of
                         None \<Rightarrow> s1
                       | Some b \<Rightarrow>
                           s1\<lparr>wld := fst (start_new_initial_session room a b now oks (wld s1))\<rparr>))
                else s1)"

definition on_vote :: "nat \<Rightarrow> string \<Rightarrow> bool \<Rightarrow> int \<Rightarrow> bool list \<Rightarrow> system \<Rightarrow> system" where
  "on_vote room user_id is_yes now oks s =
     (case get_current_session (mgr (wld s)) room of
        None \<Rightarrow> s
      | Some sess \<Rightarrow>
          s\<lparr>wld := fst (add_session_response (get_active_connections_for_room (conn s))
                          room user_id is_yes now oks (wld s))\<rparr>)"

definition chat_message :: "string \<Rightarrow> string \<Rightarrow> nat option \<Rightarrow> message" where
  "chat_message user_id text sid =
     \<lparr>mtype = ''message'', content = User_text text, msg_session_id = sid, msg_topic = None,
      msg_user_id = Some user_id\<rparr>"

definition on_chat :: "nat \<Rightarrow> string \<Rightarrow> string \<Rightarrow> int \<Rightarrow> bool list \<Rightarrow> system \<Rightarrow> system" where
  "on_chat room user_id text now oks s =
     (if dropWhile py_isspace text = [] then s
      else
        case get_current_session (mgr (wld s)) room of
          Some sess \<Rightarrow>
            if \<not> commit_ok oks 0 then s
            else s\<lparr>wld := broadcaster room
                             (chat_message user_id text (Some (session_id sess))) None (wld s)\<rparr>
        | None \<Rightarrow> s\<lparr>wld := broadcaster room (chat_message user_id text None) None (wld s)\<rparr>)"

definition finish :: "nat \<Rightarrow> SessionManager \<Rightarrow> SessionManager" where
  "finish i m =
     (if i < length (tasks m) \<and> task_state (tasks m ! i) = Pending
      then m\<lparr>tasks := (tasks m)[i := (tasks m ! i)\<lparr>task_state := Finished\<rparr>]\<rparr> else m)"

text \<open>Task \<open>i\<close> wakes from its sleep and runs one iteration; a task that is not live
  does not run.\<close>

definition on_tick :: "nat \<Rightarrow> int \<Rightarrow> bool list \<Rightarrow> system \<Rightarrow> system" where
  "on_tick i now oks s =
     (let ts = tasks (mgr (wld s))
      in if i < length ts \<and> task_state (ts ! i) = Pending then
           (case check_session_timeout (get_active_connections_for_room (conn s))
                   (task_room (ts ! i)) (target_session_id (ts ! i)) now oks (wld s) of
              (w', True) \<Rightarrow> s\<lparr>wld := w'\<rparr>
            | (w', False) \<Rightarrow> s\<lparr>wld := w'\<lparr>mgr := finish i (mgr w')\<rparr>\<rparr>)
         else s)"

definition on_dispatch :: "nat \<Rightarrow> nat list \<Rightarrow> system \<Rightarrow> system" where
  "on_dispatch room failed s =
     (case process_messages room failed (conn s) of
        (c, sent) \<Rightarrow> s\<lparr>conn := c, wire := wire s @ sent\<rparr>)"

text \<open>
  What a handler passed to the broadcaster goes into the room queues, in order. A handler
  whose \<open>put\<close> would wait on a full queue does not complete as a step (\<open>None\<close>).
\<close>

fun broadcast_all ::
  "(nat \<times> message \<times> string option) list \<Rightarrow> ConnectionManager \<Rightarrow> ConnectionManager option" where
  "broadcast_all [] c = Some c"
| "broadcast_all (item # rest) c =
     (case broadcast_to_room (fst item) (fst (snd item)) (snd (snd item)) c of
        Queued c' \<Rightarrow> broadcast_all rest c'
      | Suspended c' \<Rightarrow> None)"

definition flush :: "system \<Rightarrow> system option" where
  "flush s =
     (case broadcast_all (outbox (wld s)) (conn s) of
        None \<Rightarrow> None
      | Some c \<Rightarrow> Some (s\<lparr>conn := c, wld := (wld s)\<lparr>outbox := []\<rparr>\<rparr>))"

datatype event =
    Join nat string nat int "bool list"
  | Leave nat string int "bool list"
  | Vote nat string bool int "bool list"
  | Chat nat string string int "bool list"
  | Tick nat int "bool list"
  | Dispatch nat "nat list"

fun handle :: "event \<Rightarrow> system \<Rightarrow> system" where
  "handle (Join room user_id websocket now oks) s = on_join room user_id websocket now oks s"
| "handle (Leave room user_id now oks) s = cleanup room user_id now oks s"
| "handle (Vote room user_id is_yes now oks) s = on_vote room user_id is_yes now oks s"
| "handle (Chat room user_id text now oks) s = on_chat room user_id text now oks s"
| "handle (Tick i now oks) s = on_tick i now oks s"
| "handle (Dispatch room failed) s = on_dispatch room failed s"

definition step :: "event \<Rightarrow> system \<Rightarrow> system option" where
  "step ev s = flush (handle ev s)"

fun run :: "event list \<Rightarrow> system \<Rightarrow> system option" where
  "run [] s = Some s"
| "run (ev # evs) s = (case step ev s of None \<Rightarrow> None | Some s' \<Rightarrow> run evs s')"

definition init_system :: "nat list \<Rightarrow> system" where
  "init_system rooms =
     \<lparr>conn = \<lparr>active_connections = (\<lambda>r. None), pending_messages = (\<lambda>r. None),
              message_processor_tasks = (\<lambda>r. False)\<rparr>,
      wld = \<lparr>mgr = \<lparr>room_sessions = (\<lambda>r. None), session_tasks = (\<lambda>r. None),
                   session_responses = (\<lambda>r. None), tasks = []\<rparr>,
             db = \<lparr>sessions = [], next_session_id = 1, room_rows = rooms\<rparr>,
             outbox = []\<rparr>,
      wire = []\<rparr>"

section \<open>Concrete states\<close>

text \<open>Room 1 with users 1 and 2 connected, session 1 on the first topic and its timer
  task 0 live; the same with the manager already holding session 2.\<close>

definition ex_session :: Session where
  "ex_session =
     \<lparr>session_id = 1, room_id = 1, user_a_id = 1, user_b_id = 2, topic = topic_1_situation,
      start_time = 0, end_time = None, extension_used = False\<rparr>"

definition ex_prov :: "nat \<Rightarrow> (string \<times> nat) list" where
  "ex_prov room = (if room = 1 then [(''1'', 10), (''2'', 20)] else [])"

definition ex_world :: world where
  "ex_world =
     \<lparr>mgr = \<lparr>room_sessions = (\<lambda>r. if r = 1 then Some ex_session else None),
             session_tasks = (\<lambda>r. if r = 1 then Some 0 else None),
             session_responses = (\<lambda>r. None),
             tasks = [\<lparr>task_room = 1, target_session_id = 1, task_state = Pending\<rparr>]\<rparr>,
      db = \<lparr>sessions = [ex_session], next_session_id = 2, room_rows = [1]\<rparr>,
      outbox = []\<rparr>"

definition ex_conn :: ConnectionManager where
  "ex_conn =
     \<lparr>active_connections = (\<lambda>r. if r = 1 then Some [(''1'', 10), (''2'', 20)] else None),
      pending_messages = (\<lambda>r. if r = 1 then Some [] else None),
      message_processor_tasks = (\<lambda>r. r = 1)\<rparr>"

definition ex_system :: system where
  "ex_system = \<lparr>conn = ex_conn, wld = ex_world, wire = []\<rparr>"

definition ex_stale :: system where
  "ex_stale =
     ex_system\<lparr>wld := ex_world\<lparr>mgr := (mgr ex_world)\<lparr>room_sessions :=
        (\<lambda>r. if r = 1 then Some (ex_session\<lparr>session_id := 2, topic := topic_2_emotion\<rparr>)
              else None)\<rparr>\<rparr>\<rparr>"

text \<open>User 2 alone in room 1; user 1 has voted yes and user 2 has not voted yet.\<close>

definition ex_last :: system where
  "ex_last =
     ex_system\<lparr>conn := ex_conn\<lparr>active_connections :=
        (\<lambda>r. if r = 1 then Some [(''2'', 20)] else None)\<rparr>\<rparr>"

definition ex_voted :: world where
  "ex_voted =
     ex_world\<lparr>mgr := (mgr ex_world)\<lparr>session_responses :=
        (\<lambda>r. if r = 1 then Some [(''1'', True)] else None)\<rparr>\<rparr>"

text \<open>The round of \<open>ex_voted\<close> resolved by a no vote of user 2 (so the session is
  extended), then a late no vote of user 2, then a late no vote of user 1.\<close>

definition ex_resolved :: world where
  "ex_resolved = fst (add_session_response ex_prov 1 ''2'' False 62 [] ex_voted)"

definition ex_late :: world where
  "ex_late = fst (add_session_response ex_prov 1 ''2'' False 63 [] ex_resolved)"

definition ex_late2 :: world where
  "ex_late2 = fst (add_session_response ex_prov 1 ''1'' False 64 [] ex_late)"

text \<open>User 1 has voted no, on the first topic and on the second topic.\<close>

definition ex_voted_no :: world where
  "ex_voted_no =
     ex_world\<lparr>mgr := (mgr ex_world)\<lparr>session_responses :=
        (\<lambda>r. if r = 1 then Some [(''1'', False)] else None)\<rparr>\<rparr>"

definition ex_emotion_session :: Session where
  "ex_emotion_session = ex_session\<lparr>topic := topic_2_emotion\<rparr>"

definition ex_emotion_voted_no :: world where
  "ex_emotion_voted_no =
     ex_voted_no\<lparr>mgr := (mgr ex_voted_no)\<lparr>room_sessions :=
                      (\<lambda>r. if r = 1 then Some ex_emotion_session else None)\<rparr>,
                 db := (db ex_voted_no)\<lparr>sessions := [ex_emotion_session]\<rparr>\<rparr>"

text \<open>A world with no session at all.\<close>

definition ex_empty :: world where
  "ex_empty = wld (init_system [1])"

section \<open>Invariants and traces\<close>

text \<open>Every room queue holds at most \<open>maxsize\<close> items.\<close>

definition queues_bounded :: "ConnectionManager \<Rightarrow> bool" where
  "queues_bounded c = (\<forall>room q. pending_messages c room = Some q \<longrightarrow> length q \<le> queue_maxsize)"

text \<open>A live timer task is the one stored for its room, and the task stored for a room
  was armed for that room.\<close>

definition timers_ok :: "SessionManager \<Rightarrow> bool" where
  "timers_ok m =
     ((\<forall>i. i < length (tasks m) \<and> task_state (tasks m ! i) = Pending \<longrightarrow>
           session_tasks m (task_room (tasks m ! i)) = Some i) \<and>
      (\<forall>room i. session_tasks m room = Some i \<longrightarrow>
           i < length (tasks m) \<and> task_room (tasks m ! i) = room))"

definition tasks_grow :: "timer_task list \<Rightarrow> timer_task list \<Rightarrow> bool" where
  "tasks_grow ts ts' =
     (length ts \<le> length ts' \<and> (\<forall>i. i < length ts \<longrightarrow> task_room (ts' ! i) = task_room (ts ! i)))"

text \<open>The commit outcomes that an event carries.\<close>

fun faults :: "event \<Rightarrow> bool list" where
  "faults (Join room user_id websocket now oks) = oks"
| "faults (Leave room user_id now oks) = oks"
| "faults (Vote room user_id is_yes now oks) = oks"
| "faults (Chat room user_id body now oks) = oks"
| "faults (Tick i now oks) = oks"
| "faults (Dispatch room failed) = []"

text \<open>Two users join room 1, the first topic times out, one votes yes and one no, and
  the dispatcher sends one message; and a connection manager whose queue for room 1 is
  full.\<close>

definition ex_trace :: "event list" where
  "ex_trace =
     [Join 1 ''1'' 10 0 [], Join 1 ''2'' 20 0 [], Tick 0 60 [], Vote 1 ''1'' True 61 [],
      Vote 1 ''2'' False 62 [], Dispatch 1 []]"

definition ex_run :: system where
  "ex_run = (case run ex_trace (init_system [1]) of Some s \<Rightarrow> s | None \<Rightarrow> init_system [1])"

definition ex_full :: ConnectionManager where
  "ex_full =
     ex_conn\<lparr>pending_messages :=
        (\<lambda>r. if r = 1 then Some (replicate 100 (system_message Waiting_text, None)) else None)\<rparr>"

text \<open>Events whose handler may force-close the room's session: a join runs the
  cleanup of a replaced connection, a leave runs the cleanup of the endpoint.\<close>

fun may_close :: "event \<Rightarrow> bool" where
  "may_close (Join room user_id websocket now oks) = True"
| "may_close (Leave room user_id now oks) = True"
| "may_close ev = False"

text \<open>The session table and the manager's dictionary agree: identifiers are fresh and
  distinct, and every open row is the current session of its room.\<close>

definition sess_inv :: "(nat \<Rightarrow> Session option) \<Rightarrow> database \<Rightarrow> bool" where
  "sess_inv rs d =
     ((\<forall>row \<in> set (sessions d). session_id row < next_session_id d) \<and>
      distinct (map session_id (sessions d)) \<and>
      (\<forall>room cur. rs room = Some cur \<longrightarrow> session_id cur < next_session_id d) \<and>
      (\<forall>row \<in> set (sessions d). end_time row = None \<longrightarrow>
           (\<exists>cur. rs (room_id row) = Some cur \<and> session_id cur = session_id row)) \<and>
      (\<forall>room cur row. rs room = Some cur \<and> end_time cur \<noteq> None \<and>
           row \<in> set (sessions d) \<and> session_id row = session_id cur \<longrightarrow> end_time row \<noteq> None))"


definition sessions_ok :: "world \<Rightarrow> bool" where
  "sessions_ok w = sess_inv (room_sessions (mgr w)) (db w)"





text \<open>
  What a room's queue holds, oldest first; what a user has been sent in a room, in order;
  the items a handler passes to the broadcaster for a room; and, along a run, all items put
  into the room's queue, in the order of their \<open>put\<close>.
\<close>

definition queue_of :: "ConnectionManager \<Rightarrow> nat \<Rightarrow> (message \<times> string option) list" where
  "queue_of c room = (case pending_messages c room of None \<Rightarrow> [] | Some q \<Rightarrow> q)"

definition observed :: "nat \<Rightarrow> string \<Rightarrow> (nat \<times> string \<times> nat \<times> message) list \<Rightarrow> message list" where
  "observed room user_id sent =
     map (\<lambda>(r, u, ws, m). m) (filter (\<lambda>(r, u, ws, m). r = room \<and> u = user_id) sent)"

definition emitted :: "nat \<Rightarrow> event \<Rightarrow> system \<Rightarrow> (message \<times> string option) list" where
  "emitted room ev s = map snd (filter (\<lambda>item. fst item = room) (outbox (wld (handle ev s))))"

fun entered :: "nat \<Rightarrow> event list \<Rightarrow> system \<Rightarrow> (message \<times> string option) list" where
  "entered room [] s = []"
| "entered room (ev # evs) s =
     (case step ev s of None \<Rightarrow> [] | Some s' \<Rightarrow> emitted room ev s @ entered room evs s')"

text \<open>The inner dictionaries of \<open>active_connections\<close> have each user id once.\<close>

definition keys_ok :: "ConnectionManager \<Rightarrow> bool" where
  "keys_ok c = (\<forall>room d. active_connections c room = Some d \<longrightarrow> distinct (map fst d))"

text \<open>
  The items put into the room's queue so far are those that have left it (dispatched, or
  dropped with the queue when the room emptied) followed by those it holds, and the user
  has been sent a subsequence of the former, in their order.
\<close>

definition fifo_inv ::
  "nat \<Rightarrow> string \<Rightarrow> system \<Rightarrow> (message \<times> string option) list \<Rightarrow> bool" where
  "fifo_inv room user_id s E =
     (keys_ok (conn s) \<and>
      (\<exists>pre. E = pre @ queue_of (conn s) room \<and>
             subseq (observed room user_id (wire s)) (map fst pre)))"

text \<open>Two users join and chat; the send to the websocket of user 1 fails once.\<close>

definition ex_chat :: "event list" where
  "ex_chat =
     [Join 1 ''1'' 10 0 [], Join 1 ''2'' 20 0 [], Chat 1 ''1'' ''hi'' 1 [], Dispatch 1 [],
      Chat 1 ''2'' ''yo'' 2 [], Dispatch 1 [10], Dispatch 1 []]"

definition ex_chatted :: system where
  "ex_chatted = (case run ex_chat (init_system [1]) of Some s \<Rightarrow> s | None \<Rightarrow> init_system [1])"

section \<open>Facts about the database\<close>

lemma db_get_SomeD: "db_get d i = Some r \<Longrightarrow> session_id r = i \<and> r \<in> set (sessions d)"
  unfolding db_get_def by (induction "sessions d" arbitrary: d) (auto simp: find_Some_iff in_set_conv_nth)

lemma find_map_replace:
  "find (\<lambda>s. session_id s = session_id r) xs = Some row \<Longrightarrow>
   find (\<lambda>s. session_id s = session_id r)
     (map (\<lambda>s. if session_id s = session_id r then r else s) xs) = Some r"
  by (induction xs) (auto split: if_splits)

lemma find_append_Some:
  "find P xs = Some x \<Longrightarrow> find P (xs @ ys) = Some x"
  by (induction xs) (auto split: if_splits)

lemma db_get_store_same:
  "db_get d i = Some row \<Longrightarrow> session_id r = i \<Longrightarrow> db_get (db_store r d) i = Some r"
  by (auto simp: db_get_def db_store_def find_map_replace)

lemma find_map_other:
  "session_id r \<noteq> i \<Longrightarrow>
   find (\<lambda>s. session_id s = i) (map (\<lambda>s. if session_id s = session_id r then r else s) xs)
     = find (\<lambda>s. session_id s = i) xs"
  by (induction xs) auto

lemma db_get_store_other:
  "session_id r \<noteq> i \<Longrightarrow> db_get (db_store r d) i = db_get d i"
  by (simp add: db_get_def db_store_def find_map_other)

lemma db_get_insert:
  "db_get d i = Some row \<Longrightarrow> db_get (db_insert s d) i = Some row"
  by (simp add: db_get_def db_insert_def find_append_Some)

section \<open>Idempotent session start\<close>

text \<open>
  C10. For a room that already has a current session in the manager,
  \<open>start_new_initial_session\<close> returns that session and changes nothing: the manager (so
  no timer task is started or cancelled), the database (so no new Session row) and the
  calls to the broadcaster (so no message) are all as before.
\<close>

theorem start_new_initial_session_idempotent:
  "room_sessions (mgr w) room = Some s \<Longrightarrow>
   start_new_initial_session room a b now oks w = (w, Some s)"
  by (simp add: start_new_initial_session_def)

theorem start_new_initial_session_idempotent_witness:
  "room_sessions (mgr ex_world) 1 = Some ex_session \<and>
   start_new_initial_session 1 1 2 5 [] ex_world = (ex_world, Some ex_session)"
  using start_new_initial_session_idempotent [of ex_world 1 ex_session 1 2 5 "[]"]
  by (simp add: ex_world_def)

section \<open>Stale timers\<close>

text \<open>
  C4. A timer task armed for a session id that is not the id of the room's current session
  (another session is current, or none is) does nothing when its check runs: the method
  leaves the manager, the database and the calls to the broadcaster as they were and leaves
  its loop, so that in the whole system the only change is that this one task has ended.
\<close>

theorem stale_timer_safety:
  assumes stale: "\<forall>cur. room_sessions (mgr (wld s)) (task_room t) = Some cur \<longrightarrow>
                     session_id cur \<noteq> target_session_id t"
    and live: "i < length (tasks (mgr (wld s)))" "tasks (mgr (wld s)) ! i = t"
              "task_state t = Pending"
  shows "check_session_timeout prov (task_room t) (target_session_id t) now oks (wld s)
           = (wld s, False) \<and>
         handle (Tick i now oks) s =
           s\<lparr>wld := (wld s)\<lparr>mgr := (mgr (wld s))\<lparr>tasks :=
                (tasks (mgr (wld s)))[i := t\<lparr>task_state := Finished\<rparr>]\<rparr>\<rparr>\<rparr>"
proof -
  have c: "check_session_timeout prov (task_room t) (target_session_id t) now oks (wld s)
           = (wld s, False)" for prov
    using stale by (simp add: check_session_timeout_def split: option.splits)
  show ?thesis using live by (simp add: c on_tick_def finish_def)
qed

theorem stale_timer_safety_witness:
  "room_sessions (mgr (wld ex_stale)) 1
     = Some (ex_session\<lparr>session_id := 2, topic := topic_2_emotion\<rparr>) \<and>
   tasks (mgr (wld ex_stale)) ! 0
     = \<lparr>task_room = 1, target_session_id = 1, task_state = Pending\<rparr> \<and>
   check_session_timeout ex_prov 1 1 100 [] (wld ex_stale) = (wld ex_stale, False) \<and>
   handle (Tick 0 100 []) ex_stale =
     ex_stale\<lparr>wld := (wld ex_stale)\<lparr>mgr := (mgr (wld ex_stale))\<lparr>tasks :=
        [\<lparr>task_room = 1, target_session_id = 1, task_state = Finished\<rparr>]\<rparr>\<rparr>\<rparr>"
  using stale_timer_safety [of ex_stale
      "\<lparr>task_room = 1, target_session_id = 1, task_state = Pending\<rparr>" 0 ex_prov 100 "[]"]
  by (simp add: ex_stale_def ex_system_def ex_world_def ex_session_def)

section \<open>Facts about the manager's operations\<close>

lemma topics_distinct: "topic_1_situation \<noteq> topic_2_emotion"
  by (simp add: topic_1_situation_def topic_2_emotion_def)

lemma cancel_length [simp]: "length (cancel i ts) = length ts"
  by (simp add: cancel_def)

lemma cancel_not_pending: "i < length ts \<Longrightarrow> task_state (cancel i ts ! i) \<noteq> Pending"
  by (simp add: cancel_def)

lemma cancel_room_task_fields [simp]:
  "room_sessions (cancel_room_task room m) = room_sessions m"
  "session_tasks (cancel_room_task room m) = session_tasks m"
  "session_responses (cancel_room_task room m) = session_responses m"
  "length (tasks (cancel_room_task room m)) = length (tasks m)"
  by (simp_all add: cancel_room_task_def split: option.splits)

lemma create_task_fields [simp]:
  "room_sessions (create_task room target m) = room_sessions m"
  "session_tasks (create_task room target m) = (session_tasks m)(room \<mapsto> length (tasks m))"
  "session_responses (create_task room target m) = session_responses m"
  "tasks (create_task room target m)
     = tasks m @ [\<lparr>task_room = room, target_session_id = target, task_state = Pending\<rparr>]"
  by (simp_all add: create_task_def)

lemma clear_room_session_data_fields [simp]:
  "room_sessions (clear_room_session_data room m) = (room_sessions m)(room := None)"
  "session_tasks (clear_room_session_data room m) = (session_tasks m)(room := None)"
  "session_responses (clear_room_session_data room m) = (session_responses m)(room := None)"
  "tasks (clear_room_session_data room m) = tasks (cancel_room_task room m)"
  by (simp_all add: clear_room_session_data_def cancel_room_task_def Let_def split: option.splits)

lemma cancel_room_task_not_pending:
  "session_tasks m room = Some i \<Longrightarrow> i < length (tasks m) \<Longrightarrow>
   task_state (tasks (cancel_room_task room m) ! i) \<noteq> Pending"
  by (simp add: cancel_room_task_def cancel_not_pending)

lemma db_store_fields [simp]:
  "next_session_id (db_store r d) = next_session_id d"
  "room_rows (db_store r d) = room_rows d"
  "length (sessions (db_store r d)) = length (sessions d)"
  by (simp_all add: db_store_def)

lemma db_insert_fields [simp]:
  "next_session_id (db_insert s d) = Suc (next_session_id d)"
  "room_rows (db_insert s d) = room_rows d"
  "sessions (db_insert s d) = sessions d @ [refreshed d s]"
  by (simp_all add: db_insert_def)

lemma refreshed_new_Session:
  "refreshed d (new_Session room a b t now) =
     \<lparr>session_id = next_session_id d, room_id = room, user_a_id = a, user_b_id = b, topic = t,
      start_time = now, end_time = None, extension_used = False\<rparr>"
  by (simp add: refreshed_def new_Session_def)

lemma transition_to_emotion_topic_ok:
  assumes "commit_ok oks 0" "commit_ok oks 1" "2 \<le> length (prov room)"
    "py_int (fst (prov room ! 0)) = Some a" "py_int (fst (prov room ! 1)) = Some b"
  shows "transition_to_emotion_topic prov room ended now oks w =
     (let d1 = db_store (ended\<lparr>end_time := Some now\<rparr>) (db w);
          new = refreshed d1 (new_Session room a b topic_2_emotion now)
      in (w\<lparr>db := db_insert (new_Session room a b topic_2_emotion now) d1,
            mgr := create_task room (session_id new) (cancel_room_task room
                     ((mgr w)\<lparr>room_sessions := (room_sessions (mgr w))(room \<mapsto> new)\<rparr>)),
            outbox := outbox w @ [(room, session_message Emotion_start_text new, None)]\<rparr>,
          None))"
proof -
  have "map fst (prov room) ! 0 = fst (prov room ! 0)"
    using assms(3) by (cases "prov room") auto
  moreover have "map fst (prov room) ! 1 = fst (prov room ! 1)"
    using assms(3) by (simp add: nth_map)
  ultimately show ?thesis
    using assms by (simp add: transition_to_emotion_topic_def Let_def broadcaster_def
        del: One_nat_def)
qed

section \<open>Room-empty force close\<close>

text \<open>
  C7. When the only connected user of a room leaves while the manager holds a current
  session for the room, the endpoint's cleanup removes the room's connections and clears
  the manager's state for the room: current session, stored timer task (which is
  cancelled) and recorded votes, whatever votes or timer were there. When the commit
  succeeds, the session's row is closed at the current time if it was still open and is
  left as it is if it was closed already.
\<close>

theorem room_empty_force_close:
  assumes last: "active_connections (conn s) room = Some [(user_id, ws)]"
    and cur: "room_sessions (mgr (wld s)) room = Some cur"
  shows "let s' = cleanup room user_id now oks s in
           active_connections (conn s') room = None \<and>
           room_sessions (mgr (wld s')) room = None \<and>
           session_tasks (mgr (wld s')) room = None \<and>
           session_responses (mgr (wld s')) room = None \<and>
           (\<forall>i. session_tasks (mgr (wld s)) room = Some i \<and> i < length (tasks (mgr (wld s)))
                 \<longrightarrow> task_state (tasks (mgr (wld s')) ! i) \<noteq> Pending) \<and>
           (\<forall>row. commit_ok oks 0 \<and> db_get (db (wld s)) (session_id cur) = Some row \<and>
                   (end_time cur \<noteq> None \<longrightarrow> end_time row \<noteq> None)
                 \<longrightarrow> db_get (db (wld s')) (session_id cur)
                       = Some (if end_time row = None then row\<lparr>end_time := Some now\<rparr> else row))"
proof -
  have d: "disconnect room user_id (conn s) =
           (conn s)\<lparr>active_connections := (active_connections (conn s))(room := None),
                    message_processor_tasks := (message_processor_tasks (conn s))(room := False),
                    pending_messages := (pending_messages (conn s))(room := None)\<rparr>"
    using last by (simp add: disconnect_def dict_has_def dict_del_def)
  have c: "cleanup room user_id now oks s =
           s\<lparr>conn := disconnect room user_id (conn s),
             wld := end_session_for_room room now oks (wld s)\<rparr>"
    using cur by (simp add: cleanup_def d get_active_connections_for_room_def
        get_current_session_def Let_def)
  have m: "room_sessions (mgr (end_session_for_room room now oks w)) room = None \<and>
           session_tasks (mgr (end_session_for_room room now oks w)) room = None \<and>
           session_responses (mgr (end_session_for_room room now oks w)) room = None" for w
    by (simp add: end_session_for_room_def clear_room_session_data_def cancel_room_task_def
        Let_def split: option.splits)
  have t: "session_tasks (mgr w) room = Some i \<Longrightarrow> i < length (tasks (mgr w)) \<Longrightarrow>
           task_state (tasks (mgr (end_session_for_room room now oks w)) ! i) \<noteq> Pending" for w i
    by (simp add: end_session_for_room_def clear_room_session_data_def cancel_room_task_def
        cancel_not_pending Let_def split: option.splits)
  have r: "commit_ok oks 0 \<Longrightarrow> db_get (db (wld s)) (session_id cur) = Some row \<Longrightarrow>
           (end_time cur \<noteq> None \<longrightarrow> end_time row \<noteq> None) \<Longrightarrow>
           db_get (db (end_session_for_room room now oks (wld s))) (session_id cur)
             = Some (if end_time row = None then row\<lparr>end_time := Some now\<rparr> else row)" for row
    using cur db_get_SomeD [of "db (wld s)" "session_id cur" row]
    by (auto simp: end_session_for_room_def Let_def db_get_store_same)
  show ?thesis
    unfolding Let_def c using m t r by (simp add: d)
qed

theorem room_empty_force_close_witness:
  "active_connections (conn ex_last) 1 = Some [(''2'', 20)] \<and>
   room_sessions (mgr (wld ex_last)) 1 = Some ex_session \<and>
   room_sessions (mgr (wld (cleanup 1 ''2'' 50 [] ex_last))) 1 = None \<and>
   session_tasks (mgr (wld (cleanup 1 ''2'' 50 [] ex_last))) 1 = None \<and>
   task_state (tasks (mgr (wld (cleanup 1 ''2'' 50 [] ex_last))) ! 0) \<noteq> Pending \<and>
   db_get (db (wld (cleanup 1 ''2'' 50 [] ex_last))) 1 = Some (ex_session\<lparr>end_time := Some 50\<rparr>)"
proof -
  have h1: "active_connections (conn ex_last) 1 = Some [(''2'', 20)]"
    by (simp add: ex_last_def ex_system_def ex_conn_def)
  have h2: "room_sessions (mgr (wld ex_last)) 1 = Some ex_session"
    by (simp add: ex_last_def ex_system_def ex_world_def)
  have h3: "session_tasks (mgr (wld ex_last)) 1 = Some 0 \<and> 0 < length (tasks (mgr (wld ex_last)))"
    by (simp add: ex_last_def ex_system_def ex_world_def)
  have h4: "commit_ok [] 0 \<and> db_get (db (wld ex_last)) (session_id ex_session) = Some ex_session \<and>
            end_time ex_session = None \<and> session_id ex_session = 1"
    by (simp add: ex_last_def ex_system_def ex_world_def ex_session_def commit_ok_def db_get_def)
  from room_empty_force_close [OF h1 h2, of 50 "[]"] h3 h4 h1 h2 show ?thesis
    unfolding Let_def by auto
qed

section \<open>Vote resolution\<close>

text \<open>
  C1. One participant has voted, a different participant now votes, the manager holds a
  current session whose row is in the database, at least two users are connected and the
  commits succeed. Then the outcome follows the OR of the two votes. With a yes vote the
  row is updated with \<open>extension_used\<close> true and \<open>start_time\<close> now, it becomes the
  current session, and a new live timer task is stored for it, which does not time out
  before the session duration has passed again. With two no votes on the first topic (and
  the two connected user ids readable as integers) the row is closed at the current time
  and a fresh row with the second topic, open and not extended, is inserted, made the
  current session and given a new live timer task. With two no votes on the second topic the
  row is closed and the room's current session, timer task and votes are cleared. In each
  case the timer task stored before is no longer live.
\<close>

theorem vote_resolution_rule:
  assumes round: "session_responses (mgr w) room = Some [(other, c1)]" "other \<noteq> user_id"
    and cur: "room_sessions (mgr w) room = Some cur"
    and users: "2 \<le> length (prov room)"
    and row: "db_get (db w) (session_id cur) = Some row"
    and commits: "commit_ok oks 0" "commit_ok oks 1"
  shows "let w' = fst (add_session_response prov room user_id c2 now oks w);
             n = length (tasks (mgr w)) in
         (c1 \<or> c2 \<longrightarrow>
            db_get (db w') (session_id cur) = Some (row\<lparr>extension_used := True, start_time := now\<rparr>) \<and>
            room_sessions (mgr w') room = Some (row\<lparr>extension_used := True, start_time := now\<rparr>) \<and>
            session_tasks (mgr w') room = Some n \<and>
            tasks (mgr w') ! n
              = \<lparr>task_room = room, target_session_id = session_id cur, task_state = Pending\<rparr> \<and>
            (\<forall>t. t - now < session_timeout_duration \<longrightarrow>
                 check_session_timeout prov room (session_id cur) t oks w' = (w', True)))
         \<and> (\<not> c1 \<and> \<not> c2 \<and> topic row = topic_1_situation \<longrightarrow>
               (\<forall>a b. py_int (fst (prov room ! 0)) = Some a \<and> py_int (fst (prov room ! 1)) = Some b \<longrightarrow>
                 db_get (db w') (session_id cur) = Some (row\<lparr>end_time := Some now\<rparr>) \<and>
                 room_sessions (mgr w') room
                   = Some \<lparr>session_id = next_session_id (db w), room_id = room, user_a_id = a,
                           user_b_id = b, topic = topic_2_emotion, start_time = now,
                           end_time = None, extension_used = False\<rparr> \<and>
                 (\<forall>new. room_sessions (mgr w') room = Some new \<longrightarrow> new \<in> set (sessions (db w'))) \<and>
                 session_tasks (mgr w') room = Some n \<and>
                 tasks (mgr w') ! n
                   = \<lparr>task_room = room, target_session_id = next_session_id (db w),
                      task_state = Pending\<rparr>))
         \<and> (\<not> c1 \<and> \<not> c2 \<and> topic row = topic_2_emotion \<longrightarrow>
               db_get (db w') (session_id cur) = Some (row\<lparr>end_time := Some now\<rparr>) \<and>
               room_sessions (mgr w') room = None \<and>
               session_tasks (mgr w') room = None \<and>
               session_responses (mgr w') room = None)
         \<and> (\<forall>i. session_tasks (mgr w) room = Some i \<and> i < n \<and>
                 (c1 \<or> c2 \<or> topic row = topic_2_emotion \<or>
                  (topic row = topic_1_situation \<and> py_int (fst (prov room ! 0)) \<noteq> None \<and>
                   py_int (fst (prov room ! 1)) \<noteq> None))
               \<longrightarrow> task_state (tasks (mgr w') ! i) \<noteq> Pending)"
proof -
  have sid: "session_id row = session_id cur"
    using db_get_SomeD [OF row] by simp
  have two: "length (dict_set user_id c2 [(other, c1)]) = 2"
    using round by simp
  have ds: "dict_set user_id c2 [(other, c1)] = [(other, c1), (user_id, c2)]"
    using round by simp
  note base = add_session_response_def Let_def round cur row ds sid
  have ext: "c1 \<or> c2 \<Longrightarrow>
     add_session_response prov room user_id c2 now oks w =
       (del_responses room
         (w\<lparr>db := db_store (row\<lparr>extension_used := True, start_time := now\<rparr>) (db w),
            outbox := outbox w @ [(room, session_message
               (if c1 \<and> c2 then Extended_all_yes_text (display_name (topic row))
                else Extended_one_yes_text (display_name (topic row)))
               (row\<lparr>extension_used := True, start_time := now\<rparr>), None)],
            mgr := create_task room (session_id cur) (cancel_room_task room
                     ((mgr w)\<lparr>session_responses := (session_responses (mgr w))
                                 (room \<mapsto> [(other, c1), (user_id, c2)]),
                              room_sessions := (room_sessions (mgr w))
                                 (room \<mapsto> row\<lparr>extension_used := True, start_time := now\<rparr>)\<rparr>))\<rparr>),
        None)"
    using users commits by (auto simp: base broadcaster_def)
  have store: "session_id r = session_id cur \<Longrightarrow>
        db_get (db_store r (db w)) (session_id cur) = Some r" for r
    using db_get_store_same [OF row] by simp
  have A: "c1 \<or> c2 \<Longrightarrow>
      (let w' = fst (add_session_response prov room user_id c2 now oks w);
           n = length (tasks (mgr w)) in
         db_get (db w') (session_id cur) = Some (row\<lparr>extension_used := True, start_time := now\<rparr>) \<and>
         room_sessions (mgr w') room = Some (row\<lparr>extension_used := True, start_time := now\<rparr>) \<and>
         session_tasks (mgr w') room = Some n \<and>
         tasks (mgr w') ! n
           = \<lparr>task_room = room, target_session_id = session_id cur, task_state = Pending\<rparr> \<and>
         (\<forall>t. t - now < session_timeout_duration \<longrightarrow>
              check_session_timeout prov room (session_id cur) t oks w' = (w', True)) \<and>
         (\<forall>i. session_tasks (mgr w) room = Some i \<and> i < n \<longrightarrow>
              task_state (tasks (mgr w') ! i) \<noteq> Pending))"
    by (simp add: ext Let_def del_responses_def nth_append cancel_room_task_not_pending store sid
        check_session_timeout_def)
  have B: "\<not> c1 \<Longrightarrow> \<not> c2 \<Longrightarrow> topic row = topic_1_situation \<Longrightarrow>
       py_int (fst (prov room ! 0)) = Some a \<Longrightarrow> py_int (fst (prov room ! 1)) = Some b \<Longrightarrow>
      (let w' = fst (add_session_response prov room user_id c2 now oks w);
           n = length (tasks (mgr w)) in
         db_get (db w') (session_id cur) = Some (row\<lparr>end_time := Some now\<rparr>) \<and>
         room_sessions (mgr w') room
           = Some \<lparr>session_id = next_session_id (db w), room_id = room, user_a_id = a,
                   user_b_id = b, topic = topic_2_emotion, start_time = now,
                   end_time = None, extension_used = False\<rparr> \<and>
         (\<forall>new. room_sessions (mgr w') room = Some new \<longrightarrow> new \<in> set (sessions (db w'))) \<and>
         session_tasks (mgr w') room = Some n \<and>
         tasks (mgr w') ! n
           = \<lparr>task_room = room, target_session_id = next_session_id (db w),
              task_state = Pending\<rparr> \<and>
         (\<forall>i. session_tasks (mgr w) room = Some i \<and> i < n \<longrightarrow>
              task_state (tasks (mgr w') ! i) \<noteq> Pending))" for a b
    using users commits
    by (simp add: base transition_to_emotion_topic_ok del_responses_def nth_append
        cancel_room_task_not_pending db_get_insert store refreshed_new_Session)
  have C: "\<not> c1 \<Longrightarrow> \<not> c2 \<Longrightarrow> topic row = topic_2_emotion \<Longrightarrow>
      (let w' = fst (add_session_response prov room user_id c2 now oks w);
           n = length (tasks (mgr w)) in
         db_get (db w') (session_id cur) = Some (row\<lparr>end_time := Some now\<rparr>) \<and>
         room_sessions (mgr w') room = None \<and>
         session_tasks (mgr w') room = None \<and>
         session_responses (mgr w') room = None \<and>
         (\<forall>i. session_tasks (mgr w) room = Some i \<and> i < n \<longrightarrow>
              task_state (tasks (mgr w') ! i) \<noteq> Pending))"
    using users commits topics_distinct
    by (simp add: base end_chat_after_emotion_extension_def del_responses_def
        broadcaster_def cancel_room_task_not_pending store)
  have D: "\<forall>i. session_tasks (mgr w) room = Some i \<and> i < length (tasks (mgr w)) \<and>
                 (c1 \<or> c2 \<or> topic row = topic_2_emotion \<or>
                  (topic row = topic_1_situation \<and> py_int (fst (prov room ! 0)) \<noteq> None \<and>
                   py_int (fst (prov room ! 1)) \<noteq> None))
               \<longrightarrow> task_state (tasks (mgr (fst (add_session_response prov room user_id c2 now oks w))) ! i)
                     \<noteq> Pending"
  proof (intro allI impI, elim conjE)
    fix i
    assume i: "session_tasks (mgr w) room = Some i" "i < length (tasks (mgr w))"
      and k: "c1 \<or> c2 \<or> topic row = topic_2_emotion \<or>
                  (topic row = topic_1_situation \<and> py_int (fst (prov room ! 0)) \<noteq> None \<and>
                   py_int (fst (prov room ! 1)) \<noteq> None)"
    show "task_state (tasks (mgr (fst (add_session_response prov room user_id c2 now oks w))) ! i)
            \<noteq> Pending"
    proof (cases "c1 \<or> c2")
      case True
      from A [OF True] i show ?thesis unfolding Let_def by blast
    next
      case False
      then have n: "\<not> c1" "\<not> c2" by auto
      from k False consider "topic row = topic_2_emotion"
        | a b where "topic row = topic_1_situation" "py_int (fst (prov room ! 0)) = Some a"
            "py_int (fst (prov room ! 1)) = Some b"
        by auto
      then show ?thesis
      proof cases
        case 1
        from C [OF n 1] i show ?thesis unfolding Let_def by blast
      next
        case 2
        from B [OF n 2] i show ?thesis unfolding Let_def by blast
      qed
    qed
  qed
  show ?thesis
    unfolding Let_def
  proof (intro conjI)
    show "c1 \<or> c2 \<longrightarrow>
            db_get (db (fst (add_session_response prov room user_id c2 now oks w))) (session_id cur)
              = Some (row\<lparr>extension_used := True, start_time := now\<rparr>) \<and>
            room_sessions (mgr (fst (add_session_response prov room user_id c2 now oks w))) room
              = Some (row\<lparr>extension_used := True, start_time := now\<rparr>) \<and>
            session_tasks (mgr (fst (add_session_response prov room user_id c2 now oks w))) room
              = Some (length (tasks (mgr w))) \<and>
            tasks (mgr (fst (add_session_response prov room user_id c2 now oks w))) ! length (tasks (mgr w))
              = \<lparr>task_room = room, target_session_id = session_id cur, task_state = Pending\<rparr> \<and>
            (\<forall>t. t - now < session_timeout_duration \<longrightarrow>
                 check_session_timeout prov room (session_id cur) t oks
                   (fst (add_session_response prov room user_id c2 now oks w))
                 = (fst (add_session_response prov room user_id c2 now oks w), True))"
      using A unfolding Let_def by blast
  next
    show "\<not> c1 \<and> \<not> c2 \<and> topic row = topic_1_situation \<longrightarrow>
               (\<forall>a b. py_int (fst (prov room ! 0)) = Some a \<and> py_int (fst (prov room ! 1)) = Some b \<longrightarrow>
                 db_get (db (fst (add_session_response prov room user_id c2 now oks w))) (session_id cur)
                   = Some (row\<lparr>end_time := Some now\<rparr>) \<and>
                 room_sessions (mgr (fst (add_session_response prov room user_id c2 now oks w))) room
                   = Some \<lparr>session_id = next_session_id (db w), room_id = room, user_a_id = a,
                           user_b_id = b, topic = topic_2_emotion, start_time = now,
                           end_time = None, extension_used = False\<rparr> \<and>
                 (\<forall>new. room_sessions (mgr (fst (add_session_response prov room user_id c2 now oks w))) room = Some new
                     \<longrightarrow> new \<in> set (sessions (db (fst (add_session_response prov room user_id c2 now oks w))))) \<and>
                 session_tasks (mgr (fst (add_session_response prov room user_id c2 now oks w))) room
                   = Some (length (tasks (mgr w))) \<and>
                 tasks (mgr (fst (add_session_response prov room user_id c2 now oks w))) ! length (tasks (mgr w))
                   = \<lparr>task_room = room, target_session_id = next_session_id (db w),
                      task_state = Pending\<rparr>)"
      using B unfolding Let_def by blast
  next
    show "\<not> c1 \<and> \<not> c2 \<and> topic row = topic_2_emotion \<longrightarrow>
               db_get (db (fst (add_session_response prov room user_id c2 now oks w))) (session_id cur)
                 = Some (row\<lparr>end_time := Some now\<rparr>) \<and>
               room_sessions (mgr (fst (add_session_response prov room user_id c2 now oks w))) room = None \<and>
               session_tasks (mgr (fst (add_session_response prov room user_id c2 now oks w))) room = None \<and>
               session_responses (mgr (fst (add_session_response prov room user_id c2 now oks w))) room = None"
      using C unfolding Let_def by blast
  next
    show "\<forall>i. session_tasks (mgr w) room = Some i \<and> i < length (tasks (mgr w)) \<and>
                 (c1 \<or> c2 \<or> topic row = topic_2_emotion \<or>
                  (topic row = topic_1_situation \<and> py_int (fst (prov room ! 0)) \<noteq> None \<and>
                   py_int (fst (prov room ! 1)) \<noteq> None))
               \<longrightarrow> task_state (tasks (mgr (fst (add_session_response prov room user_id c2 now oks w))) ! i)
                     \<noteq> Pending"
      by (rule D)
  qed
qed

theorem vote_resolution_rule_witness:
  "room_sessions (mgr (fst (add_session_response ex_prov 1 ''2'' False 62 [] ex_voted))) 1
     = Some (ex_session\<lparr>extension_used := True, start_time := 62\<rparr>) \<and>
   session_tasks (mgr (fst (add_session_response ex_prov 1 ''2'' False 62 [] ex_voted))) 1
     = Some 1 \<and>
   tasks (mgr (fst (add_session_response ex_prov 1 ''2'' False 62 [] ex_voted))) ! 1
     = \<lparr>task_room = 1, target_session_id = 1, task_state = Pending\<rparr> \<and>
   task_state (tasks (mgr (fst (add_session_response ex_prov 1 ''2'' False 62 [] ex_voted))) ! 0)
     \<noteq> Pending \<and>
   db_get (db (fst (add_session_response ex_prov 1 ''2'' False 62 [] ex_voted_no))) 1
     = Some (ex_session\<lparr>end_time := Some 62\<rparr>) \<and>
   room_sessions (mgr (fst (add_session_response ex_prov 1 ''2'' False 62 [] ex_voted_no))) 1
     = Some \<lparr>session_id = 2, room_id = 1, user_a_id = 1, user_b_id = 2,
             topic = topic_2_emotion, start_time = 62, end_time = None,
             extension_used = False\<rparr> \<and>
   db_get (db (fst (add_session_response ex_prov 1 ''2'' False 62 [] ex_emotion_voted_no))) 1
     = Some (ex_emotion_session\<lparr>end_time := Some 62\<rparr>) \<and>
   room_sessions (mgr (fst (add_session_response ex_prov 1 ''2'' False 62 [] ex_emotion_voted_no))) 1
     = None"
proof -
  have h2: "''1'' \<noteq> ''2''" by simp
  have h4: "2 \<le> length (ex_prov 1)" by (simp add: ex_prov_def)
  have h6: "commit_ok [] 0" "commit_ok [] 1" by (simp_all add: commit_ok_def)
  have a1: "session_responses (mgr ex_voted) 1 = Some [(''1'', True)]"
    by (simp add: ex_voted_def)
  have a3: "room_sessions (mgr ex_voted) 1 = Some ex_session"
    by (simp add: ex_voted_def ex_world_def)
  have a5: "db_get (db ex_voted) (session_id ex_session) = Some ex_session"
    by (simp add: ex_voted_def ex_world_def db_get_def)
  have a7: "session_tasks (mgr ex_voted) 1 = Some 0" "length (tasks (mgr ex_voted)) = 1"
    "session_id ex_session = 1"
    by (simp_all add: ex_voted_def ex_world_def ex_session_def)
  from vote_resolution_rule [where w = ex_voted and room = 1 and other = "''1''"
      and ?c1.0 = True and user_id = "''2''" and cur = ex_session and prov = ex_prov
      and row = ex_session and oks = "[]" and ?c2.0 = False and now = 62,
      OF a1 h2 a3 h4 a5 h6] a7
  have extend:
    "room_sessions (mgr (fst (add_session_response ex_prov 1 ''2'' False 62 [] ex_voted))) 1
       = Some (ex_session\<lparr>extension_used := True, start_time := 62\<rparr>) \<and>
     session_tasks (mgr (fst (add_session_response ex_prov 1 ''2'' False 62 [] ex_voted))) 1
       = Some 1 \<and>
     tasks (mgr (fst (add_session_response ex_prov 1 ''2'' False 62 [] ex_voted))) ! 1
       = \<lparr>task_room = 1, target_session_id = 1, task_state = Pending\<rparr> \<and>
     task_state (tasks (mgr (fst (add_session_response ex_prov 1 ''2'' False 62 [] ex_voted))) ! 0)
       \<noteq> Pending"
    unfolding Let_def by auto
  have b1: "session_responses (mgr ex_voted_no) 1 = Some [(''1'', False)]"
    by (simp add: ex_voted_no_def)
  have b3: "room_sessions (mgr ex_voted_no) 1 = Some ex_session"
    by (simp add: ex_voted_no_def ex_world_def)
  have b5: "db_get (db ex_voted_no) (session_id ex_session) = Some ex_session"
    by (simp add: ex_voted_no_def ex_world_def db_get_def)
  have b7: "topic ex_session = topic_1_situation" "session_id ex_session = 1"
    "py_int (fst (ex_prov 1 ! 0)) = Some 1" "py_int (fst (ex_prov 1 ! 1)) = Some 2"
    "next_session_id (db ex_voted_no) = 2"
    by (simp_all add: ex_session_def ex_voted_no_def ex_world_def ex_prov_def py_int_def
        parse_unsigned_def digit_val_def py_isspace_def)
  from vote_resolution_rule [where w = ex_voted_no and room = 1 and other = "''1''"
      and ?c1.0 = False and user_id = "''2''" and cur = ex_session and prov = ex_prov
      and row = ex_session and oks = "[]" and ?c2.0 = False and now = 62,
      OF b1 h2 b3 h4 b5 h6] b7
  have advance:
    "db_get (db (fst (add_session_response ex_prov 1 ''2'' False 62 [] ex_voted_no))) 1
       = Some (ex_session\<lparr>end_time := Some 62\<rparr>) \<and>
     room_sessions (mgr (fst (add_session_response ex_prov 1 ''2'' False 62 [] ex_voted_no))) 1
       = Some \<lparr>session_id = 2, room_id = 1, user_a_id = 1, user_b_id = 2,
               topic = topic_2_emotion, start_time = 62, end_time = None,
               extension_used = False\<rparr>"
    unfolding Let_def by auto
  have c1: "session_responses (mgr ex_emotion_voted_no) 1 = Some [(''1'', False)]"
    by (simp add: ex_emotion_voted_no_def ex_voted_no_def)
  have c3: "room_sessions (mgr ex_emotion_voted_no) 1 = Some ex_emotion_session"
    by (simp add: ex_emotion_voted_no_def)
  have c5: "db_get (db ex_emotion_voted_no) (session_id ex_emotion_session)
              = Some ex_emotion_session"
    by (simp add: ex_emotion_voted_no_def db_get_def)
  have c7: "topic ex_emotion_session = topic_2_emotion" "session_id ex_emotion_session = 1"
    by (simp_all add: ex_emotion_session_def ex_session_def)
  from vote_resolution_rule [where w = ex_emotion_voted_no and room = 1 and other = "''1''"
      and ?c1.0 = False and user_id = "''2''" and cur = ex_emotion_session and prov = ex_prov
      and row = ex_emotion_session and oks = "[]" and ?c2.0 = False and now = 62,
      OF c1 h2 c3 h4 c5 h6] c7
  have finish:
    "db_get (db (fst (add_session_response ex_prov 1 ''2'' False 62 [] ex_emotion_voted_no))) 1
       = Some (ex_emotion_session\<lparr>end_time := Some 62\<rparr>) \<and>
     room_sessions (mgr (fst (add_session_response ex_prov 1 ''2'' False 62 [] ex_emotion_voted_no))) 1
       = None"
    unfolding Let_def by auto
  from extend advance finish show ?thesis by blast
qed

section \<open>Votes after a resolved round\<close>

lemma add_session_response_fresh_round:
  assumes "session_responses (mgr w) room = None"
  shows "add_session_response prov room user_id c now oks w =
     (case room_sessions (mgr w) room of
        None \<Rightarrow> (w, None)
      | Some cur \<Rightarrow>
          (let w0 = w\<lparr>mgr := (mgr w)\<lparr>session_responses :=
                       (session_responses (mgr w))(room \<mapsto> [(user_id, c)])\<rparr>\<rparr>
           in if length (prov room) < 2 then (w0, None)
              else (broadcaster room (system_message Waiting_text) (Some user_id) w0, None)))"
  using assms
  by (auto simp: add_session_response_def Let_def del_responses_def fun_upd_idem
      split: option.splits)

lemma resolution_clears_votes:
  assumes round: "session_responses (mgr w) room = Some [(other, c1)]" "other \<noteq> user_id"
    and cur: "room_sessions (mgr w) room = Some cur"
    and users: "2 \<le> length (prov room)"
    and row: "db_get (db w) (session_id cur) = Some row"
    and commits: "commit_ok oks 0" "commit_ok oks 1"
    and resolves: "c1 \<or> c2 \<or> topic row \<noteq> topic_1_situation \<or>
                   (py_int (fst (prov room ! 0)) \<noteq> None \<and> py_int (fst (prov room ! 1)) \<noteq> None)"
  shows "session_responses (mgr (fst (add_session_response prov room user_id c2 now oks w))) room
           = None"
proof -
  have ds: "dict_set user_id c2 [(other, c1)] = [(other, c1), (user_id, c2)]"
    using round by simp
  note base = add_session_response_def Let_def round cur row ds del_responses_def
  show ?thesis
  proof (cases "c1 \<or> c2")
    case True
    then show ?thesis using users commits by (auto simp: base broadcaster_def)
  next
    case no: False
    show ?thesis
    proof (cases "topic row = topic_1_situation")
      case True
      with no resolves obtain a b where
        "py_int (fst (prov room ! 0)) = Some a" "py_int (fst (prov room ! 1)) = Some b"
        by auto
      then show ?thesis
        using no True users commits
        by (simp add: base transition_to_emotion_topic_ok)
    next
      case False
      then show ?thesis
        using no users commits
        by (simp add: base end_chat_after_emotion_extension_def broadcaster_def)
    qed
  qed
qed

text \<open>
  C6, as stated, does not hold. After the round of \<open>ex_voted\<close> has resolved (the session
  was extended), a further submission by user 2 is recorded as the first vote of a new
  round, so the state changes; a further submission by user 1 then resolves that new round,
  and the room moves on to the second topic.
\<close>

theorem late_vote_counterexample:
  "session_responses (mgr ex_resolved) 1 = None \<and>
   fst (add_session_response ex_prov 1 ''2'' False 63 [] ex_resolved) \<noteq> ex_resolved \<and>
   map_option topic (room_sessions (mgr ex_resolved) 1) = Some topic_1_situation \<and>
   map_option topic (room_sessions (mgr ex_late2) 1) = Some topic_2_emotion"
proof -
  have "session_responses (mgr (fst (add_session_response ex_prov 1 ''2'' False 63 [] ex_resolved))) 1
          \<noteq> session_responses (mgr ex_resolved) 1"
    by code_simp
  then have "fst (add_session_response ex_prov 1 ''2'' False 63 [] ex_resolved) \<noteq> ex_resolved"
    by auto
  moreover have "session_responses (mgr ex_resolved) 1 = None" by code_simp
  moreover have "map_option topic (room_sessions (mgr ex_resolved) 1) = Some topic_1_situation"
    by code_simp
  moreover have "map_option topic (room_sessions (mgr ex_late2) 1) = Some topic_2_emotion"
    by code_simp
  ultimately show ?thesis by simp
qed

text \<open>
  C6, amended. When a round resolves, the room's recorded votes are removed. A further
  submission is not rejected and raises nothing. If the room has no current session (the
  round ended the chat), it changes nothing. Otherwise it is recorded as the first vote of a
  new round and, with two or more users connected, the voter is sent the waiting notice;
  by itself it causes no extension, topic advance or end: current sessions, timer tasks and
  database stay as they were.
\<close>

theorem vote_after_resolution:
  assumes round: "session_responses (mgr w) room = Some [(other, c1)]" "other \<noteq> user_id"
    and cur: "room_sessions (mgr w) room = Some cur"
    and users: "2 \<le> length (prov room)"
    and row: "db_get (db w) (session_id cur) = Some row"
    and commits: "commit_ok oks 0" "commit_ok oks 1"
    and resolves: "c1 \<or> c2 \<or> topic row \<noteq> topic_1_situation \<or>
                   (py_int (fst (prov room ! 0)) \<noteq> None \<and> py_int (fst (prov room ! 1)) \<noteq> None)"
  shows "let w1 = fst (add_session_response prov room user_id c2 now oks w) in
           session_responses (mgr w1) room = None \<and>
           (\<forall>prov' u c now' oks'.
              let late = add_session_response prov' room u c now' oks' w1; w2 = fst late in
                snd late = None \<and>
                db w2 = db w1 \<and> room_sessions (mgr w2) = room_sessions (mgr w1) \<and>
                session_tasks (mgr w2) = session_tasks (mgr w1) \<and>
                tasks (mgr w2) = tasks (mgr w1) \<and>
                (room_sessions (mgr w1) room = None \<longrightarrow> w2 = w1) \<and>
                (room_sessions (mgr w1) room \<noteq> None \<longrightarrow>
                   session_responses (mgr w2) room = Some [(u, c)] \<and>
                   outbox w2 = outbox w1 @
                     (if length (prov' room) < 2 then []
                      else [(room, system_message Waiting_text, Some u)])))"
proof -
  let ?w1 = "fst (add_session_response prov room user_id c2 now oks w)"
  have cleared: "session_responses (mgr ?w1) room = None"
    by (rule resolution_clears_votes [where prov = prov and room = room, OF assms])
  show ?thesis
    unfolding Let_def
    by (auto simp: cleared add_session_response_fresh_round [OF cleared] Let_def
        broadcaster_def split: option.splits)
qed

theorem vote_after_resolution_witness:
  "session_responses (mgr ex_resolved) 1 = None \<and>
   room_sessions (mgr ex_late) = room_sessions (mgr ex_resolved) \<and>
   tasks (mgr ex_late) = tasks (mgr ex_resolved) \<and>
   db ex_late = db ex_resolved \<and>
   session_responses (mgr ex_late) 1 = Some [(''2'', False)] \<and>
   outbox ex_late = outbox ex_resolved @ [(1, system_message Waiting_text, Some ''2'')]"
proof -
  have h1: "session_responses (mgr ex_voted) 1 = Some [(''1'', True)]"
    by (simp add: ex_voted_def)
  have h2: "''1'' \<noteq> ''2''" by simp
  have h3: "room_sessions (mgr ex_voted) 1 = Some ex_session"
    by (simp add: ex_voted_def ex_world_def)
  have h4: "2 \<le> length (ex_prov 1)" by (simp add: ex_prov_def)
  have h5: "db_get (db ex_voted) (session_id ex_session) = Some ex_session"
    by (simp add: ex_voted_def ex_world_def db_get_def)
  have h6: "commit_ok [] 0" "commit_ok [] 1" by (simp_all add: commit_ok_def)
  have h7: "True \<or> False \<or> topic ex_session \<noteq> topic_1_situation \<or>
            (py_int (fst (ex_prov 1 ! 0)) \<noteq> None \<and> py_int (fst (ex_prov 1 ! 1)) \<noteq> None)"
    by simp
  have h8: "room_sessions (mgr ex_resolved) 1 \<noteq> None" by code_simp
  have h9: "\<not> length (ex_prov 1) < 2" by (simp add: ex_prov_def)
  from vote_after_resolution [where w = ex_voted and room = 1 and other = "''1''"
      and ?c1.0 = True and user_id = "''2''" and cur = ex_session and prov = ex_prov
      and row = ex_session and oks = "[]" and ?c2.0 = False and now = 62,
      OF h1 h2 h3 h4 h5 h6 h7]
  have "session_responses (mgr ex_resolved) 1 = None \<and>
        (let late = add_session_response ex_prov 1 ''2'' False 63 [] ex_resolved; w2 = fst late in
           snd late = None \<and>
           db w2 = db ex_resolved \<and> room_sessions (mgr w2) = room_sessions (mgr ex_resolved) \<and>
           session_tasks (mgr w2) = session_tasks (mgr ex_resolved) \<and>
           tasks (mgr w2) = tasks (mgr ex_resolved) \<and>
           (room_sessions (mgr ex_resolved) 1 = None \<longrightarrow> w2 = ex_resolved) \<and>
           (room_sessions (mgr ex_resolved) 1 \<noteq> None \<longrightarrow>
                   session_responses (mgr w2) 1 = Some [(''2'', False)] \<and>
                   outbox w2 = outbox ex_resolved @
                     (if length (ex_prov 1) < 2 then []
                      else [(1, system_message Waiting_text, Some ''2'')])))"
    unfolding Let_def ex_resolved_def [symmetric] by blast
  with h8 h9 show ?thesis
    unfolding Let_def ex_late_def by simp
qed

section \<open>Persist failures\<close>

lemma transition_first_commit_fails:
  "\<not> commit_ok oks 0 \<Longrightarrow>
   transition_to_emotion_topic prov room ended now oks w = (w, Some CommitFailed)"
  by (simp add: transition_to_emotion_topic_def)

lemma end_chat_commit_fails:
  "\<not> commit_ok oks 0 \<Longrightarrow>
   end_chat_after_emotion_extension room ended now oks w = (w, Some CommitFailed)"
  by (simp add: end_chat_after_emotion_extension_def)

lemma transition_second_commit_fails:
  assumes "commit_ok oks 0" "\<not> commit_ok oks 1" "2 \<le> length (prov room)"
  shows "\<exists>e. transition_to_emotion_topic prov room ended now oks w =
           (w\<lparr>db := db_store (ended\<lparr>end_time := Some now\<rparr>) (db w)\<rparr>, Some e)"
  using assms
  by (simp add: transition_to_emotion_topic_def Let_def split: option.splits del: One_nat_def)

lemma add_session_response_first_commit_fails:
  assumes "\<not> commit_ok oks 0"
  shows "snd (add_session_response prov room user_id c now oks w) = None \<and>
         db (fst (add_session_response prov room user_id c now oks w)) = db w \<and>
         room_sessions (mgr (fst (add_session_response prov room user_id c now oks w)))
           = room_sessions (mgr w) \<and>
         session_tasks (mgr (fst (add_session_response prov room user_id c now oks w)))
           = session_tasks (mgr w) \<and>
         tasks (mgr (fst (add_session_response prov room user_id c now oks w))) = tasks (mgr w)"
  using assms
  by (simp add: add_session_response_def Let_def transition_first_commit_fails
      end_chat_commit_fails del_responses_def broadcaster_def split: option.splits)

lemma add_session_response_first_commit_fails_outbox:
  assumes "\<not> commit_ok oks 0"
  shows "outbox (fst (add_session_response prov room user_id c now oks w)) = outbox w \<or>
         outbox (fst (add_session_response prov room user_id c now oks w))
           = outbox w @ [(room, system_message Waiting_text, Some user_id)]"
  using assms
  by (simp add: add_session_response_def Let_def transition_first_commit_fails
      end_chat_commit_fails del_responses_def broadcaster_def split: option.splits)

lemma check_session_timeout_commit_fails:
  assumes "\<not> commit_ok oks 0"
  shows "db (fst (check_session_timeout prov room target now oks w)) = db w \<and>
         room_sessions (mgr (fst (check_session_timeout prov room target now oks w)))
           = room_sessions (mgr w) \<and>
         session_tasks (mgr (fst (check_session_timeout prov room target now oks w)))
           = session_tasks (mgr w) \<and>
         tasks (mgr (fst (check_session_timeout prov room target now oks w))) = tasks (mgr w)"
  using assms
  by (simp add: check_session_timeout_def Let_def transition_first_commit_fails
      end_chat_commit_fails broadcaster_def split: option.splits)

lemma add_session_response_resolving_commit_fails:
  assumes "room_sessions (mgr w) room = Some cur" "2 \<le> length (prov room)"
    "length (dict_set user_id c (case session_responses (mgr w) room of None \<Rightarrow> [] | Some d \<Rightarrow> d)) = 2"
    "db_get (db w) (session_id cur) = Some row"
    "list_ex snd (dict_set user_id c (case session_responses (mgr w) room of None \<Rightarrow> [] | Some d \<Rightarrow> d))
       \<or> topic row = topic_1_situation \<or> topic row = topic_2_emotion"
    "\<not> commit_ok oks 0"
  shows "add_session_response prov room user_id c now oks w =
           (w\<lparr>mgr := (mgr w)\<lparr>session_responses := (session_responses (mgr w))
                (room \<mapsto> dict_set user_id c
                   (case session_responses (mgr w) room of None \<Rightarrow> [] | Some d \<Rightarrow> d))\<rparr>\<rparr>,
            None)"
proof -
  let ?rs = "dict_set user_id c (case session_responses (mgr w) room of None \<Rightarrow> [] | Some d \<Rightarrow> d)"
  have a: "list_all snd ?rs \<Longrightarrow> list_ex snd ?rs"
    using assms(3) by (cases ?rs) auto
  show ?thesis
    using assms a
    by (auto simp: add_session_response_def Let_def transition_first_commit_fails
        end_chat_commit_fails simp del: One_nat_def)
qed

lemma check_session_timeout_first_commit_fails:
  assumes "room_sessions (mgr w) room = Some cur" "session_id cur = target"
    "session_timeout_duration \<le> now - start_time cur"
    "db_get (db w) target = Some row" "extension_used row"
    "\<not> commit_ok oks 0"
  shows "check_session_timeout prov room target now oks w = (w, False)"
  using assms
  by (simp add: check_session_timeout_def transition_first_commit_fails end_chat_commit_fails)

lemma check_session_timeout_second_commit_fails:
  assumes "room_sessions (mgr w) room = Some cur" "session_id cur = target"
    "session_timeout_duration \<le> now - start_time cur"
    "db_get (db w) target = Some row" "extension_used row"
    "topic row = topic_1_situation" "2 \<le> length (prov room)"
    "commit_ok oks 0" "\<not> commit_ok oks 1"
  shows "check_session_timeout prov room target now oks w =
           (w\<lparr>db := db_store (row\<lparr>end_time := Some now\<rparr>) (db w)\<rparr>, False)"
proof -
  from assms(7,8,9)
    transition_second_commit_fails [where oks = oks and prov = prov and room = room
      and ended = row and now = now and w = w]
  obtain e where "transition_to_emotion_topic prov room row now oks w =
           (w\<lparr>db := db_store (row\<lparr>end_time := Some now\<rparr>) (db w)\<rparr>, Some e)"
    by blast
  with assms show ?thesis by (simp add: check_session_timeout_def)
qed

text \<open>
  C9, as stated, does not hold: \<open>add_session_response\<close> does not surface a failed persist
  to its caller. Here the vote of user 2 resolves the round, the commit of the extension
  fails, the database is as before, and the call ends normally like any other.
\<close>

theorem persist_failure_not_surfaced_counterexample:
  "\<not> commit_ok [False] 0 \<and>
   db (fst (add_session_response ex_prov 1 ''2'' False 62 [False] ex_voted)) = db ex_voted \<and>
   snd (add_session_response ex_prov 1 ''2'' False 62 [False] ex_voted) = None"
  by code_simp

text \<open>
  C9, amended. The manager's current session is assigned only after the commit of the
  transition has succeeded. When the first commit of a handler fails, the database, the
  current sessions and the timer tasks are as before: \<open>start_new_initial_session\<close> leaves
  the whole state as it was and reports the failure by returning no session, while
  \<open>add_session_response\<close> and the timer check catch the error and end normally, and the only
  message \<open>add_session_response\<close> can then have sent is the waiting notice of a first vote.
  When the vote that resolves the round meets a failing commit (of the extension, of the
  closing of the first topic, or of the end of the chat), the call changes nothing but the
  recorded votes, which now include this vote: no message is sent. When the timer of a
  session that has used its extension meets a failing commit, the state is as it was and
  the timer task ends. When a topic advance has closed the old row and the commit of the new
  row fails, on the vote path or on the timer path, only the closed row differs in the
  database, the current session and timer stay those of the old session, no message is
  sent, the votes stay recorded, and the call ends normally.
\<close>

theorem persist_failure_keeps_memory:
  "(room_sessions (mgr w0) room = None \<and> \<not> commit_ok oks 0 \<longrightarrow>
      start_new_initial_session room a b now oks w0 = (w0, None)) \<and>
   (\<not> commit_ok oks 0 \<longrightarrow>
      (let r = add_session_response prov room user_id c now oks w in
         snd r = None \<and> db (fst r) = db w \<and>
         room_sessions (mgr (fst r)) = room_sessions (mgr w) \<and>
         session_tasks (mgr (fst r)) = session_tasks (mgr w) \<and>
         tasks (mgr (fst r)) = tasks (mgr w) \<and>
         (outbox (fst r) = outbox w \<or>
          outbox (fst r) = outbox w @ [(room, system_message Waiting_text, Some user_id)])) \<and>
      (let w' = fst (check_session_timeout prov room target now oks w) in
         db w' = db w \<and>
         room_sessions (mgr w') = room_sessions (mgr w) \<and>
         session_tasks (mgr w') = session_tasks (mgr w) \<and>
         tasks (mgr w') = tasks (mgr w))) \<and>
   (session_responses (mgr w) room = Some [(other, False)] \<and> other \<noteq> user_id \<and>
    room_sessions (mgr w) room = Some cur \<and> db_get (db w) (session_id cur) = Some row \<and>
    topic row = topic_1_situation \<and> 2 \<le> length (prov room) \<and>
    commit_ok oks1 0 \<and> \<not> commit_ok oks1 1 \<longrightarrow>
      (let r = add_session_response prov room user_id False now oks1 w in
         snd r = None \<and>
         db (fst r) = db_store (row\<lparr>end_time := Some now\<rparr>) (db w) \<and>
         room_sessions (mgr (fst r)) = room_sessions (mgr w) \<and>
         session_tasks (mgr (fst r)) = session_tasks (mgr w) \<and>
         tasks (mgr (fst r)) = tasks (mgr w) \<and>
         outbox (fst r) = outbox w \<and>
         session_responses (mgr (fst r)) room = Some [(other, False), (user_id, False)]))  \<and>
   (room_sessions (mgr w) room = Some cur \<and> 2 \<le> length (prov room) \<and>
    db_get (db w) (session_id cur) = Some row \<and>
    session_responses (mgr w) room = Some d \<and> length (dict_set user_id c d) = 2 \<and>
    (list_ex snd (dict_set user_id c d) \<or> topic row = topic_1_situation \<or>
     topic row = topic_2_emotion) \<and>
    \<not> commit_ok oks 0 \<longrightarrow>
      add_session_response prov room user_id c now oks w =
        (w\<lparr>mgr := (mgr w)\<lparr>session_responses :=
            (session_responses (mgr w))(room \<mapsto> dict_set user_id c d)\<rparr>\<rparr>, None)) \<and>
   (room_sessions (mgr wt) room = Some curt \<and> session_id curt = target \<and>
    session_timeout_duration \<le> nowt - start_time curt \<and>
    db_get (db wt) target = Some rowt \<and> extension_used rowt \<and> \<not> commit_ok oks 0 \<longrightarrow>
      check_session_timeout prov room target nowt oks wt = (wt, False)) \<and>
   (room_sessions (mgr wt) room = Some curt \<and> session_id curt = target \<and>
    session_timeout_duration \<le> nowt - start_time curt \<and>
    db_get (db wt) target = Some rowt \<and> extension_used rowt \<and>
    topic rowt = topic_1_situation \<and> 2 \<le> length (prov room) \<and>
    commit_ok oks1 0 \<and> \<not> commit_ok oks1 1 \<longrightarrow>
      check_session_timeout prov room target nowt oks1 wt =
        (wt\<lparr>db := db_store (rowt\<lparr>end_time := Some nowt\<rparr>) (db wt)\<rparr>, False))"
proof (intro conjI impI)
  assume "room_sessions (mgr w0) room = None \<and> \<not> commit_ok oks 0"
  then show "start_new_initial_session room a b now oks w0 = (w0, None)"
    by (simp add: start_new_initial_session_def)
next
  assume "\<not> commit_ok oks 0"
  then show "let r = add_session_response prov room user_id c now oks w in
         snd r = None \<and> db (fst r) = db w \<and>
         room_sessions (mgr (fst r)) = room_sessions (mgr w) \<and>
         session_tasks (mgr (fst r)) = session_tasks (mgr w) \<and>
         tasks (mgr (fst r)) = tasks (mgr w) \<and>
         (outbox (fst r) = outbox w \<or>
          outbox (fst r) = outbox w @ [(room, system_message Waiting_text, Some user_id)])"
    unfolding Let_def
    using add_session_response_first_commit_fails [of oks prov room user_id c now w]
      add_session_response_first_commit_fails_outbox [of oks prov room user_id c now w]
    by simp
next
  assume "\<not> commit_ok oks 0"
  then show "let w' = fst (check_session_timeout prov room target now oks w) in
         db w' = db w \<and>
         room_sessions (mgr w') = room_sessions (mgr w) \<and>
         session_tasks (mgr w') = session_tasks (mgr w) \<and>
         tasks (mgr w') = tasks (mgr w)"
    unfolding Let_def by (rule check_session_timeout_commit_fails)
next
  assume h: "session_responses (mgr w) room = Some [(other, False)] \<and> other \<noteq> user_id \<and>
    room_sessions (mgr w) room = Some cur \<and> db_get (db w) (session_id cur) = Some row \<and>
    topic row = topic_1_situation \<and> 2 \<le> length (prov room) \<and>
    commit_ok oks1 0 \<and> \<not> commit_ok oks1 1"
  then have ds: "dict_set user_id False [(other, False)] = [(other, False), (user_id, False)]"
    by simp
  let ?w0 = "w\<lparr>mgr := (mgr w)\<lparr>session_responses :=
                (session_responses (mgr w))(room \<mapsto> [(other, False), (user_id, False)])\<rparr>\<rparr>"
  from h transition_second_commit_fails [of oks1 prov room row now ?w0]
  obtain e where e: "transition_to_emotion_topic prov room row now oks1 ?w0 =
           (?w0\<lparr>db := db_store (row\<lparr>end_time := Some now\<rparr>) (db ?w0)\<rparr>, Some e)"
    by blast
  show "let r = add_session_response prov room user_id False now oks1 w in
         snd r = None \<and>
         db (fst r) = db_store (row\<lparr>end_time := Some now\<rparr>) (db w) \<and>
         room_sessions (mgr (fst r)) = room_sessions (mgr w) \<and>
         session_tasks (mgr (fst r)) = session_tasks (mgr w) \<and>
         tasks (mgr (fst r)) = tasks (mgr w) \<and>
         outbox (fst r) = outbox w \<and>
         session_responses (mgr (fst r)) room = Some [(other, False), (user_id, False)]"
    using h by (simp add: add_session_response_def Let_def ds e)
next
  assume "room_sessions (mgr w) room = Some cur \<and> 2 \<le> length (prov room) \<and>
    db_get (db w) (session_id cur) = Some row \<and>
    session_responses (mgr w) room = Some d \<and> length (dict_set user_id c d) = 2 \<and>
    (list_ex snd (dict_set user_id c d) \<or> topic row = topic_1_situation \<or>
     topic row = topic_2_emotion) \<and>
    \<not> commit_ok oks 0"
  then show "add_session_response prov room user_id c now oks w =
        (w\<lparr>mgr := (mgr w)\<lparr>session_responses :=
            (session_responses (mgr w))(room \<mapsto> dict_set user_id c d)\<rparr>\<rparr>, None)"
    using add_session_response_resolving_commit_fails [of w room cur prov user_id c row oks now]
    by simp
next
  assume "room_sessions (mgr wt) room = Some curt \<and> session_id curt = target \<and>
    session_timeout_duration \<le> nowt - start_time curt \<and>
    db_get (db wt) target = Some rowt \<and> extension_used rowt \<and> \<not> commit_ok oks 0"
  then show "check_session_timeout prov room target nowt oks wt = (wt, False)"
    by (simp add: check_session_timeout_first_commit_fails)
next
  assume "room_sessions (mgr wt) room = Some curt \<and> session_id curt = target \<and>
    session_timeout_duration \<le> nowt - start_time curt \<and>
    db_get (db wt) target = Some rowt \<and> extension_used rowt \<and>
    topic rowt = topic_1_situation \<and> 2 \<le> length (prov room) \<and>
    commit_ok oks1 0 \<and> \<not> commit_ok oks1 1"
  then show "check_session_timeout prov room target nowt oks1 wt =
        (wt\<lparr>db := db_store (rowt\<lparr>end_time := Some nowt\<rparr>) (db wt)\<rparr>, False)"
    by (simp add: check_session_timeout_second_commit_fails)
qed

theorem persist_failure_keeps_memory_witness:
  "start_new_initial_session 1 1 2 62 [False] ex_empty = (ex_empty, None) \<and>
   room_sessions (mgr (fst (add_session_response ex_prov 1 ''2'' False 62 [False] ex_voted_no)))
     = room_sessions (mgr ex_voted_no) \<and>
   room_sessions (mgr (fst (add_session_response ex_prov 1 ''2'' False 62 [True, False] ex_voted_no)))
     = room_sessions (mgr ex_voted_no) \<and>
   db (fst (add_session_response ex_prov 1 ''2'' False 62 [True, False] ex_voted_no))
     = db_store (ex_session\<lparr>end_time := Some 62\<rparr>) (db ex_voted_no) \<and>
   add_session_response ex_prov 1 ''2'' False 62 [False] ex_voted_no =
     (ex_voted_no\<lparr>mgr := (mgr ex_voted_no)\<lparr>session_responses :=
         (session_responses (mgr ex_voted_no))(1 \<mapsto> [(''1'', False), (''2'', False)])\<rparr>\<rparr>, None) \<and>
   check_session_timeout ex_prov 1 1 122 [False] ex_resolved = (ex_resolved, False) \<and>
   check_session_timeout ex_prov 1 1 122 [True, False] ex_resolved =
     (ex_resolved\<lparr>db := db_store (ex_session\<lparr>extension_used := True, start_time := 62,
                                              end_time := Some 122\<rparr>) (db ex_resolved)\<rparr>, False)"
proof -
  have h1: "room_sessions (mgr ex_empty) 1 = None \<and> \<not> commit_ok [False] 0"
    by (simp add: ex_empty_def init_system_def commit_ok_def)
  have h2: "session_responses (mgr ex_voted_no) 1 = Some [(''1'', False)] \<and> ''1'' \<noteq> ''2'' \<and>
    room_sessions (mgr ex_voted_no) 1 = Some ex_session \<and>
    db_get (db ex_voted_no) (session_id ex_session) = Some ex_session \<and>
    topic ex_session = topic_1_situation \<and> 2 \<le> length (ex_prov 1) \<and>
    commit_ok [True, False] 0 \<and> \<not> commit_ok [True, False] 1"
    by (simp add: ex_voted_no_def ex_world_def db_get_def ex_session_def ex_prov_def
        commit_ok_def)
  have h3: "length (dict_set ''2'' False [(''1'', False)]) = 2 \<and>
            dict_set ''2'' False [(''1'', False)] = [(''1'', False), (''2'', False)]"
    by simp
  have h4: "room_sessions (mgr ex_resolved) 1
              = Some (ex_session\<lparr>extension_used := True, start_time := 62\<rparr>)"
    "db_get (db ex_resolved) 1 = Some (ex_session\<lparr>extension_used := True, start_time := 62\<rparr>)"
    by code_simp+
  have h5: "session_id (ex_session\<lparr>extension_used := True, start_time := 62\<rparr>) = 1 \<and>
    session_timeout_duration \<le> 122 - start_time (ex_session\<lparr>extension_used := True, start_time := 62\<rparr>) \<and>
    extension_used (ex_session\<lparr>extension_used := True, start_time := 62\<rparr>) \<and>
    topic (ex_session\<lparr>extension_used := True, start_time := 62\<rparr>) = topic_1_situation"
    by (simp add: ex_session_def session_timeout_duration_def SESSION_DURATION_MINUTES_def)
  from persist_failure_keeps_memory [where ?w0.0 = ex_empty and room = 1 and oks = "[False]"
      and a = 1 and b = 2 and now = 62 and prov = ex_prov and user_id = "''2''" and c = False
      and w = ex_voted_no and target = 1 and other = "''1''" and cur = ex_session
      and row = ex_session and ?oks1.0 = "[True, False]" and d = "[(''1'', False)]"
      and wt = ex_resolved and nowt = 122
      and curt = "ex_session\<lparr>extension_used := True, start_time := 62\<rparr>"
      and rowt = "ex_session\<lparr>extension_used := True, start_time := 62\<rparr>"]
    h1 h2 h3 h4 h5
  show ?thesis
    unfolding Let_def by simp
qed

section \<open>Shape of the handlers\<close>

lemma conn_cleanup [simp]:
  "conn (cleanup room user_id now oks s) = disconnect room user_id (conn s)"
  by (simp add: cleanup_def Let_def split: option.splits)

lemma conn_on_join:
  "conn (on_join room user_id websocket now oks s) =
     (if user_id = [] then disconnect room user_id (conn s)
      else if room \<notin> set (room_rows (db (wld s)))
           then disconnect room user_id
                  (disconnect room user_id (connect websocket room user_id (conn s)))
           else connect websocket room user_id (conn s))"
  by (simp add: on_join_def Let_def split: option.splits)

lemma conn_on_vote [simp]: "conn (on_vote room user_id is_yes now oks s) = conn s"
  by (simp add: on_vote_def split: option.splits)

lemma conn_on_chat [simp]: "conn (on_chat room user_id text now oks s) = conn s"
  by (simp add: on_chat_def split: option.splits)

lemma conn_on_tick [simp]: "conn (on_tick i now oks s) = conn s"
  by (simp add: on_tick_def Let_def split: prod.splits bool.splits)

lemma conn_on_dispatch [simp]:
  "conn (on_dispatch room failed s) = fst (process_messages room failed (conn s))"
  by (simp add: on_dispatch_def split: prod.splits)

lemma conn_handle_cases:
  assumes "P (conn s)"
    and "\<And>ws room u c. P c \<Longrightarrow> P (connect ws room u c)"
    and "\<And>room u c. P c \<Longrightarrow> P (disconnect room u c)"
    and "\<And>room f c. P c \<Longrightarrow> P (fst (process_messages room f c))"
  shows "P (conn (handle ev s))"
  using assms by (cases ev) (simp_all add: conn_on_join)

lemma wld_cleanup:
  "wld (cleanup room user_id now oks s) =
     (if length (get_active_connections_for_room (disconnect room user_id (conn s)) room) = 0
         \<and> room_sessions (mgr (wld s)) room \<noteq> None
      then end_session_for_room room now oks (wld s) else wld s)"
  by (simp add: cleanup_def Let_def get_current_session_def split: option.splits)

lemma wld_on_join:
  "wld (on_join room user_id websocket now oks s) = wld s \<or>
   wld (on_join room user_id websocket now oks s) = end_session_for_room room now oks (wld s) \<or>
   (\<exists>a b. wld (on_join room user_id websocket now oks s)
            = fst (start_new_initial_session room a b now oks (wld s)))"
  by (simp add: on_join_def wld_cleanup Let_def split: option.splits) blast

lemma wld_handle_cases:
  assumes start: "P (wld s)"
    and close: "\<And>room now w. may_close ev \<Longrightarrow> P w \<Longrightarrow>
                  P (end_session_for_room room now (faults ev) w)"
    and init: "\<And>room a b now w. P w \<Longrightarrow>
                 P (fst (start_new_initial_session room a b now (faults ev) w))"
    and vote: "\<And>prov room u c now w. P w \<Longrightarrow>
                 P (fst (add_session_response prov room u c now (faults ev) w))"
    and tick: "\<And>prov room target now w. P w \<Longrightarrow>
                 P (fst (check_session_timeout prov room target now (faults ev) w))"
    and chat: "\<And>room m w. P w \<Longrightarrow> P (broadcaster room m None w)"
    and fin: "\<And>i w. P w \<Longrightarrow> P (w\<lparr>mgr := finish i (mgr w)\<rparr>)"
  shows "P (wld (handle ev s))"
proof (cases ev)
  case (Join room user_id websocket now oks)
  from wld_on_join [of room user_id websocket now oks s]
  consider "wld (handle ev s) = wld s"
    | "wld (handle ev s) = end_session_for_room room now (faults ev) (wld s)"
    | a b where "wld (handle ev s) = fst (start_new_initial_session room a b now (faults ev) (wld s))"
    using Join by auto
  then show ?thesis
    using start close [OF _ start] init [OF start] Join by cases simp_all
next
  case (Leave room user_id now oks)
  then show ?thesis
    using start close [OF _ start, of room now] by (simp add: wld_cleanup)
next
  case (Vote room user_id is_yes now oks)
  then show ?thesis
    using start vote [of "wld s" _ room user_id is_yes now]
    by (simp add: on_vote_def split: option.splits)
next
  case (Chat room user_id body now oks)
  then show ?thesis
    using start chat [of "wld s" room] by (simp add: on_chat_def split: option.splits)
next
  case (Tick i now oks)
  let ?t = "tasks (mgr (wld s)) ! i"
  let ?r = "check_session_timeout (get_active_connections_for_room (conn s))
              (task_room ?t) (target_session_id ?t) now oks (wld s)"
  from tick [OF start] Tick have c: "P (fst ?r)" by simp
  show ?thesis
  proof (cases ?r)
    case (Pair w' cont)
    with c Tick start fin [of w' i] show ?thesis
      by (cases cont) (simp_all add: on_tick_def Let_def)
  qed
next
  case (Dispatch room failed)
  then show ?thesis
    using start by (simp add: on_dispatch_def split: prod.splits)
qed

lemma mgr_flush: "flush s = Some s' \<Longrightarrow> mgr (wld s') = mgr (wld s) \<and> db (wld s') = db (wld s)"
  by (auto simp: flush_def split: option.splits)

lemma ex_run_reached: "run ex_trace (init_system [1]) = Some ex_run"
proof -
  have "case run ex_trace (init_system [1]) of None \<Rightarrow> False | Some s \<Rightarrow> True"
    by code_simp
  then show ?thesis
    by (auto simp: ex_run_def split: option.splits)
qed

section \<open>Bounded queue with backpressure\<close>

lemma queues_bounded_connect: "queues_bounded c \<Longrightarrow> queues_bounded (connect ws room u c)"
  by (auto simp: queues_bounded_def connect_def Let_def split: option.splits if_splits)

lemma queues_bounded_disconnect: "queues_bounded c \<Longrightarrow> queues_bounded (disconnect room u c)"
  by (auto simp: queues_bounded_def disconnect_def Let_def split: option.splits if_splits)

lemma queues_bounded_process:
  "queues_bounded c \<Longrightarrow> queues_bounded (fst (process_messages room f c))"
  by (fastforce simp: queues_bounded_def process_messages_def Let_def
      split: option.splits if_splits list.splits)

lemma queues_bounded_broadcast:
  "queues_bounded c \<Longrightarrow> broadcast_to_room room m t c = Queued c' \<Longrightarrow> queues_bounded c'"
  by (auto simp: queues_bounded_def broadcast_to_room_def Let_def
      split: option.splits if_splits)

lemma queues_bounded_broadcast_all:
  "queues_bounded c \<Longrightarrow> broadcast_all items c = Some c' \<Longrightarrow> queues_bounded c'"
proof (induction items arbitrary: c)
  case Nil
  then show ?case by simp
next
  case (Cons item items)
  then show ?case
    by (auto split: put_result.splits dest: queues_bounded_broadcast)
qed

lemma queues_bounded_step:
  assumes "queues_bounded (conn s)" "step ev s = Some s'"
  shows "queues_bounded (conn s')"
proof -
  have "queues_bounded (conn (handle ev s))"
    using assms(1)
    by (rule conn_handle_cases)
      (simp_all add: queues_bounded_connect queues_bounded_disconnect queues_bounded_process)
  with assms(2) show ?thesis
    by (auto simp: step_def flush_def split: option.splits dest: queues_bounded_broadcast_all)
qed

lemma queues_bounded_run:
  "queues_bounded (conn s) \<Longrightarrow> run evs s = Some s' \<Longrightarrow> queues_bounded (conn s')"
proof (induction evs arbitrary: s)
  case Nil
  then show ?case by simp
next
  case (Cons ev evs)
  then show ?case
    by (auto split: option.splits dest: queues_bounded_step)
qed

text \<open>
  C8. In every state that a run of events reaches from the initial system, each room queue
  holds at most 100 items. \<open>broadcast_to_room\<close> creates the queue when the room has none
  and puts the item at its end while it holds fewer than 100 items. On a queue that holds
  100 items the caller is suspended and the manager, queue included, is as it was: nothing
  is dropped and nothing is added; after the room's dispatcher has taken one item, the same
  call puts the item at the end.
\<close>

theorem bounded_queue_backpressure:
  "(run evs (init_system rooms) = Some s \<longrightarrow>
      (\<forall>room q. pending_messages (conn s) room = Some q \<longrightarrow> length q \<le> 100)) \<and>
   (pending_messages c room = None \<longrightarrow>
      broadcast_to_room room m target c =
        Queued (c\<lparr>pending_messages := (pending_messages c)(room \<mapsto> [(m, target)]),
                  message_processor_tasks := (message_processor_tasks c)(room := True)\<rparr>)) \<and>
   (pending_messages c1 room = Some q1 \<and> length q1 < 100 \<longrightarrow>
      broadcast_to_room room m target c1 =
        Queued (c1\<lparr>pending_messages := (pending_messages c1)(room \<mapsto> q1 @ [(m, target)])\<rparr>)) \<and>
   (pending_messages c2 room = Some q2 \<and> length q2 = 100 \<longrightarrow>
      broadcast_to_room room m target c2 = Suspended c2 \<and>
      (message_processor_tasks c2 room \<longrightarrow>
         broadcast_to_room room m target (fst (process_messages room failed c2)) =
           Queued (c2\<lparr>pending_messages := (pending_messages c2)(room \<mapsto> tl q2 @ [(m, target)])\<rparr>)))"
proof (intro conjI impI)
  assume r: "run evs (init_system rooms) = Some s"
  have "queues_bounded (conn (init_system rooms))"
    by (simp add: queues_bounded_def init_system_def)
  from queues_bounded_run [OF this r]
  show "\<forall>room q. pending_messages (conn s) room = Some q \<longrightarrow> length q \<le> 100"
    by (simp add: queues_bounded_def queue_maxsize_def)
next
  assume "pending_messages c room = None"
  then show "broadcast_to_room room m target c =
        Queued (c\<lparr>pending_messages := (pending_messages c)(room \<mapsto> [(m, target)]),
                  message_processor_tasks := (message_processor_tasks c)(room := True)\<rparr>)"
    by (simp add: broadcast_to_room_def queue_maxsize_def)
next
  assume "pending_messages c1 room = Some q1 \<and> length q1 < 100"
  then show "broadcast_to_room room m target c1 =
        Queued (c1\<lparr>pending_messages := (pending_messages c1)(room \<mapsto> q1 @ [(m, target)])\<rparr>)"
    by (simp add: broadcast_to_room_def queue_maxsize_def)
next
  assume h: "pending_messages c2 room = Some q2 \<and> length q2 = 100"
  then show "broadcast_to_room room m target c2 = Suspended c2"
    by (simp add: broadcast_to_room_def queue_maxsize_def)
  assume "message_processor_tasks c2 room"
  with h show "broadcast_to_room room m target (fst (process_messages room failed c2)) =
           Queued (c2\<lparr>pending_messages := (pending_messages c2)(room \<mapsto> tl q2 @ [(m, target)])\<rparr>)"
    by (cases q2) (auto simp: broadcast_to_room_def process_messages_def queue_maxsize_def Let_def)
qed

theorem bounded_queue_backpressure_witness:
  "run ex_trace (init_system [1]) = Some ex_run \<and>
   pending_messages (conn ex_run) 1 \<noteq> None \<and>
   length (the (pending_messages (conn ex_run) 1)) \<le> 100 \<and>
   broadcast_to_room 1 (system_message Intro_text) None ex_conn =
     Queued (ex_conn\<lparr>pending_messages :=
        (pending_messages ex_conn)(1 \<mapsto> [(system_message Intro_text, None)])\<rparr>) \<and>
   broadcast_to_room 1 (system_message Intro_text) None ex_full = Suspended ex_full \<and>
   broadcast_to_room 1 (system_message Intro_text) None (fst (process_messages 1 [] ex_full)) =
     Queued (ex_full\<lparr>pending_messages := (pending_messages ex_full)
        (1 \<mapsto> replicate 99 (system_message Waiting_text, None)
               @ [(system_message Intro_text, None)])\<rparr>)"
proof -
  have h0: "pending_messages (conn ex_run) 1 \<noteq> None" by code_simp
  then obtain q where q: "pending_messages (conn ex_run) 1 = Some q" by auto
  have h1: "pending_messages ex_conn 1 = Some [] \<and> length ([] :: (message \<times> string option) list) < 100"
    by (simp add: ex_conn_def)
  have h2: "pending_messages ex_full 1 = Some (replicate 100 (system_message Waiting_text, None)) \<and>
            length (replicate 100 (system_message Waiting_text, None :: string option)) = 100"
    by (simp add: ex_full_def)
  have h3: "message_processor_tasks ex_full 1"
    by (simp add: ex_full_def ex_conn_def)
  have h5: "tl (replicate 100 (system_message Waiting_text, None :: string option))
              = replicate 99 (system_message Waiting_text, None)"
    by (simp add: numeral_eq_Suc)
  from bounded_queue_backpressure [where evs = ex_trace and rooms = "[1]" and s = ex_run
      and c = "conn (init_system [1])" and room = 1 and ?c1.0 = ex_conn and ?q1.0 = "[]"
      and ?c2.0 = ex_full and ?q2.0 = "replicate 100 (system_message Waiting_text, None)"
      and m = "system_message Intro_text" and target = None and failed = "[]"]
    ex_run_reached h1 h2 h3 h5 q
  show ?thesis by simp
qed

section \<open>One live timer per room\<close>

lemma timers_ok_other_fields [simp]:
  "timers_ok (m\<lparr>room_sessions := rs\<rparr>) = timers_ok m"
  "timers_ok (m\<lparr>session_responses := rr\<rparr>) = timers_ok m"
  by (simp_all add: timers_ok_def)

lemma cancel_nth:
  "cancel i ts ! j = (if j = i \<and> i < length ts \<and> task_state (ts ! i) = Pending
                      then (ts ! i)\<lparr>task_state := Cancelled\<rparr> else ts ! j)"
  by (simp add: cancel_def)

lemma tasks_cancel_room_task:
  "tasks (cancel_room_task room m)
     = (case session_tasks m room of None \<Rightarrow> tasks m | Some i \<Rightarrow> cancel i (tasks m))"
  by (simp add: cancel_room_task_def split: option.splits)

lemma timers_ok_restart:
  assumes "timers_ok m"
  shows "timers_ok (create_task room target (cancel_room_task room m))"
proof -
  let ?m = "create_task room target (cancel_room_task room m)"
  have one: "session_tasks ?m (task_room (tasks ?m ! i)) = Some i"
    if i: "i < length (tasks ?m)" and p: "task_state (tasks ?m ! i) = Pending" for i
  proof (cases "i < length (tasks m)")
    case True
    with p have old: "task_state (tasks m ! i) = Pending"
      and nth: "tasks ?m ! i = tasks m ! i"
      by (auto simp: nth_append tasks_cancel_room_task cancel_nth split: option.splits if_splits)
    with assms True have st: "session_tasks m (task_room (tasks m ! i)) = Some i"
      by (simp add: timers_ok_def)
    have "task_room (tasks m ! i) \<noteq> room"
    proof
      assume "task_room (tasks m ! i) = room"
      with st have "session_tasks m room = Some i" by simp
      with True p show False
        by (simp add: nth_append tasks_cancel_room_task cancel_nth split: if_splits)
    qed
    with st nth show ?thesis by simp
  next
    case False
    with i have "i = length (tasks m)" by simp
    then show ?thesis by (simp add: nth_append)
  qed
  have two: "i < length (tasks ?m) \<and> task_room (tasks ?m ! i) = r"
    if "session_tasks ?m r = Some i" for r i
  proof (cases "r = room")
    case True
    with that show ?thesis by (simp add: nth_append)
  next
    case False
    with that have "session_tasks m r = Some i" by simp
    with assms have "i < length (tasks m) \<and> task_room (tasks m ! i) = r"
      by (simp add: timers_ok_def)
    then show ?thesis
      by (auto simp: nth_append tasks_cancel_room_task cancel_nth split: option.splits)
  qed
  show ?thesis
    unfolding timers_ok_def using one two by blast
qed

lemma timers_ok_clear:
  assumes "timers_ok m"
  shows "timers_ok (clear_room_session_data room m)"
proof -
  let ?m = "clear_room_session_data room m"
  have one: "session_tasks ?m (task_room (tasks ?m ! i)) = Some i"
    if i: "i < length (tasks ?m)" and p: "task_state (tasks ?m ! i) = Pending" for i
  proof -
    from i have il: "i < length (tasks m)" by simp
    from p have old: "task_state (tasks m ! i) = Pending" and nth: "tasks ?m ! i = tasks m ! i"
      by (auto simp: tasks_cancel_room_task cancel_nth split: option.splits if_splits)
    with assms il have st: "session_tasks m (task_room (tasks m ! i)) = Some i"
      by (simp add: timers_ok_def)
    have "task_room (tasks m ! i) \<noteq> room"
    proof
      assume "task_room (tasks m ! i) = room"
      with st have "session_tasks m room = Some i" by simp
      with il p show False
        by (simp add: tasks_cancel_room_task cancel_nth split: if_splits)
    qed
    with st nth show ?thesis by simp
  qed
  have two: "i < length (tasks ?m) \<and> task_room (tasks ?m ! i) = r"
    if "session_tasks ?m r = Some i" for r i
  proof -
    from that have "r \<noteq> room" "session_tasks m r = Some i" by (auto split: if_splits)
    with assms have "i < length (tasks m) \<and> task_room (tasks m ! i) = r"
      by (simp add: timers_ok_def)
    then show ?thesis
      by (auto simp: tasks_cancel_room_task cancel_nth split: option.splits)
  qed
  show ?thesis
    unfolding timers_ok_def using one two by blast
qed

lemma timers_ok_finish: "timers_ok m \<Longrightarrow> timers_ok (finish i m)"
  by (auto simp: timers_ok_def finish_def nth_list_update)

lemma tasks_grow_refl [simp]: "tasks_grow ts ts"
  by (simp add: tasks_grow_def)

lemma tasks_grow_trans: "tasks_grow a b \<Longrightarrow> tasks_grow b c \<Longrightarrow> tasks_grow a c"
  by (auto simp: tasks_grow_def)

lemma tasks_grow_cancel_room_task [simp]: "tasks_grow ts (tasks (cancel_room_task room m)) = tasks_grow ts (tasks m)"
  by (auto simp: tasks_grow_def tasks_cancel_room_task cancel_nth split: option.splits)

lemma tasks_grow_append: "tasks_grow ts ts' \<Longrightarrow> tasks_grow ts (ts' @ xs)"
  by (auto simp: tasks_grow_def nth_append)

lemma tasks_grow_finish [simp]: "tasks_grow ts (tasks (finish i m)) = tasks_grow ts (tasks m)"
  by (auto simp: tasks_grow_def finish_def nth_list_update)

lemma start_timers:
  "timers_ok (mgr w) \<Longrightarrow>
   timers_ok (mgr (fst (start_new_initial_session room a b now oks w))) \<and>
   tasks_grow (tasks (mgr w)) (tasks (mgr (fst (start_new_initial_session room a b now oks w))))"
  by (auto simp: start_new_initial_session_def Let_def broadcaster_def
      intro!: timers_ok_restart tasks_grow_append split: option.splits)

lemma transition_timers:
  "timers_ok (mgr w) \<Longrightarrow>
   timers_ok (mgr (fst (transition_to_emotion_topic prov room ended now oks w))) \<and>
   tasks_grow (tasks (mgr w))
     (tasks (mgr (fst (transition_to_emotion_topic prov room ended now oks w))))"
  by (auto simp: transition_to_emotion_topic_def Let_def broadcaster_def
      intro!: timers_ok_restart tasks_grow_append split: option.splits simp del: One_nat_def)

lemma end_chat_timers:
  "timers_ok (mgr w) \<Longrightarrow>
   timers_ok (mgr (fst (end_chat_after_emotion_extension room ended now oks w))) \<and>
   tasks_grow (tasks (mgr w))
     (tasks (mgr (fst (end_chat_after_emotion_extension room ended now oks w))))"
  by (auto simp: end_chat_after_emotion_extension_def Let_def broadcaster_def
      intro!: timers_ok_clear)

lemma check_timers:
  "timers_ok (mgr w) \<Longrightarrow>
   timers_ok (mgr (fst (check_session_timeout prov room target now oks w))) \<and>
   tasks_grow (tasks (mgr w))
     (tasks (mgr (fst (check_session_timeout prov room target now oks w))))"
  by (simp add: check_session_timeout_def Let_def broadcaster_def transition_timers
      end_chat_timers split: option.splits)

lemma transition_timersD:
  "transition_to_emotion_topic prov room ended now oks w = (w', e) \<Longrightarrow> timers_ok (mgr w) \<Longrightarrow>
   timers_ok (mgr w') \<and> tasks_grow (tasks (mgr w)) (tasks (mgr w'))"
  using transition_timers [of w prov room ended now oks] by simp

lemma end_chat_timersD:
  "end_chat_after_emotion_extension room ended now oks w = (w', e) \<Longrightarrow> timers_ok (mgr w) \<Longrightarrow>
   timers_ok (mgr w') \<and> tasks_grow (tasks (mgr w)) (tasks (mgr w'))"
  using end_chat_timers [of w room ended now oks] by simp

lemma add_response_timers:
  "timers_ok (mgr w) \<Longrightarrow>
   timers_ok (mgr (fst (add_session_response prov room user_id c now oks w))) \<and>
   tasks_grow (tasks (mgr w))
     (tasks (mgr (fst (add_session_response prov room user_id c now oks w))))"
  by (auto simp: add_session_response_def Let_def del_responses_def broadcaster_def
      intro!: timers_ok_restart tasks_grow_append
      dest!: transition_timersD end_chat_timersD
      split: option.splits prod.splits)

lemma end_session_timers:
  "timers_ok (mgr w) \<Longrightarrow>
   timers_ok (mgr (end_session_for_room room now oks w)) \<and>
   tasks_grow (tasks (mgr w)) (tasks (mgr (end_session_for_room room now oks w)))"
  by (auto simp: end_session_for_room_def Let_def intro!: timers_ok_clear split: option.splits)

lemma handle_timers:
  assumes "timers_ok (mgr (wld s))"
  shows "timers_ok (mgr (wld (handle ev s))) \<and>
         tasks_grow (tasks (mgr (wld s))) (tasks (mgr (wld (handle ev s))))"
proof (rule wld_handle_cases [where P = "\<lambda>w::world. timers_ok (mgr w) \<and>
                                  tasks_grow (tasks (mgr (wld s))) (tasks (mgr w))"])
  show "timers_ok (mgr (wld s)) \<and> tasks_grow (tasks (mgr (wld s))) (tasks (mgr (wld s)))"
    using assms by simp
next
  fix room now and w :: world
  assume "may_close ev"
    and "timers_ok (mgr w) \<and> tasks_grow (tasks (mgr (wld s))) (tasks (mgr w))"
  then show "timers_ok (mgr (end_session_for_room room now (faults ev) w)) \<and>
        tasks_grow (tasks (mgr (wld s))) (tasks (mgr (end_session_for_room room now (faults ev) w)))"
    using end_session_timers [of w room now "faults ev"] by (metis tasks_grow_trans)
next
  fix room a b now and w :: world
  assume "timers_ok (mgr w) \<and> tasks_grow (tasks (mgr (wld s))) (tasks (mgr w))"
  then show "timers_ok (mgr (fst (start_new_initial_session room a b now (faults ev) w))) \<and>
        tasks_grow (tasks (mgr (wld s)))
          (tasks (mgr (fst (start_new_initial_session room a b now (faults ev) w))))"
    using start_timers [of w room a b now "faults ev"] by (metis tasks_grow_trans)
next
  fix prov room u c now and w :: world
  assume "timers_ok (mgr w) \<and> tasks_grow (tasks (mgr (wld s))) (tasks (mgr w))"
  then show "timers_ok (mgr (fst (add_session_response prov room u c now (faults ev) w))) \<and>
        tasks_grow (tasks (mgr (wld s)))
          (tasks (mgr (fst (add_session_response prov room u c now (faults ev) w))))"
    using add_response_timers [of w prov room u c now "faults ev"]
    by (metis tasks_grow_trans)
next
  fix prov room target now and w :: world
  assume "timers_ok (mgr w) \<and> tasks_grow (tasks (mgr (wld s))) (tasks (mgr w))"
  then show "timers_ok (mgr (fst (check_session_timeout prov room target now (faults ev) w))) \<and>
        tasks_grow (tasks (mgr (wld s)))
          (tasks (mgr (fst (check_session_timeout prov room target now (faults ev) w))))"
    using check_timers [of w prov room target now "faults ev"]
    by (metis tasks_grow_trans)
next
  fix room m and w :: world
  assume "timers_ok (mgr w) \<and> tasks_grow (tasks (mgr (wld s))) (tasks (mgr w))"
  then show "timers_ok (mgr (broadcaster room m None w)) \<and>
        tasks_grow (tasks (mgr (wld s))) (tasks (mgr (broadcaster room m None w)))"
    by (simp add: broadcaster_def)
next
  fix i and w :: world
  assume "timers_ok (mgr w) \<and> tasks_grow (tasks (mgr (wld s))) (tasks (mgr w))"
  then show "timers_ok (mgr (w\<lparr>mgr := finish i (mgr w)\<rparr>)) \<and>
        tasks_grow (tasks (mgr (wld s))) (tasks (mgr (w\<lparr>mgr := finish i (mgr w)\<rparr>)))"
    by (simp add: timers_ok_finish)
qed
lemma step_timers:
  assumes "timers_ok (mgr (wld s))" "step ev s = Some s'"
  shows "timers_ok (mgr (wld s')) \<and> tasks_grow (tasks (mgr (wld s))) (tasks (mgr (wld s')))"
proof -
  from assms(2) have "flush (handle ev s) = Some s'" by (simp add: step_def)
  from mgr_flush [OF this] have "mgr (wld s') = mgr (wld (handle ev s))" by simp
  with handle_timers [OF assms(1), of ev] show ?thesis by simp
qed

lemma run_timers:
  "timers_ok (mgr (wld s)) \<Longrightarrow> run evs s = Some s' \<Longrightarrow> timers_ok (mgr (wld s'))"
proof (induction evs arbitrary: s)
  case Nil
  then show ?case by simp
next
  case (Cons ev evs)
  from Cons.prems(2) obtain s1 where s1: "step ev s = Some s1" "run evs s1 = Some s'"
    by (auto split: option.splits)
  from step_timers [OF Cons.prems(1) s1(1)] have "timers_ok (mgr (wld s1))" by simp
  from Cons.IH [OF this s1(2)] show ?case .
qed

lemma init_timers: "timers_ok (mgr (wld (init_system rooms)))"
  by (simp add: timers_ok_def init_system_def)

lemma timers_ok_live:
  "timers_ok m \<Longrightarrow> i < length (tasks m) \<Longrightarrow> task_state (tasks m ! i) = Pending \<Longrightarrow>
   session_tasks m (task_room (tasks m ! i)) = Some i"
  by (simp add: timers_ok_def)

lemma timers_ok_stored:
  "timers_ok m \<Longrightarrow> session_tasks m room = Some i \<Longrightarrow>
   i < length (tasks m) \<and> task_room (tasks m ! i) = room"
  by (simp add: timers_ok_def)

lemma tasks_growD:
  "tasks_grow ts ts' \<Longrightarrow> i < length ts \<Longrightarrow> i < length ts' \<and> task_room (ts' ! i) = task_room (ts ! i)"
  by (simp add: tasks_grow_def)

text \<open>
  C5. In every state that a run of events reaches from the initial system, two live timer
  tasks are never armed for the same room. And whenever a step replaces or removes the
  timer task stored for a room (session start, extension, topic advance, end, room
  emptied), the task stored before is no longer live afterwards.
\<close>

theorem one_live_timer_per_room:
  assumes "run evs (init_system rooms) = Some s"
  shows "(\<forall>i j. i < length (tasks (mgr (wld s))) \<and> j < length (tasks (mgr (wld s))) \<and>
              task_state (tasks (mgr (wld s)) ! i) = Pending \<and>
              task_state (tasks (mgr (wld s)) ! j) = Pending \<and>
              task_room (tasks (mgr (wld s)) ! i) = task_room (tasks (mgr (wld s)) ! j)
            \<longrightarrow> i = j) \<and>
         (\<forall>ev s' room i.
              step ev s = Some s' \<and> session_tasks (mgr (wld s)) room = Some i \<and>
              session_tasks (mgr (wld s')) room \<noteq> Some i
            \<longrightarrow> task_state (tasks (mgr (wld s')) ! i) \<noteq> Pending)"
proof (intro conjI allI impI)
  have ok: "timers_ok (mgr (wld s))"
    using run_timers [OF init_timers assms] .
  {
    fix i j
    assume h: "i < length (tasks (mgr (wld s))) \<and> j < length (tasks (mgr (wld s))) \<and>
              task_state (tasks (mgr (wld s)) ! i) = Pending \<and>
              task_state (tasks (mgr (wld s)) ! j) = Pending \<and>
              task_room (tasks (mgr (wld s)) ! i) = task_room (tasks (mgr (wld s)) ! j)"
    from h timers_ok_live [OF ok, of i]
    have a: "session_tasks (mgr (wld s)) (task_room (tasks (mgr (wld s)) ! i)) = Some i"
      by simp
    from h timers_ok_live [OF ok, of j]
    have b: "session_tasks (mgr (wld s)) (task_room (tasks (mgr (wld s)) ! j)) = Some j"
      by simp
    from h have "task_room (tasks (mgr (wld s)) ! i) = task_room (tasks (mgr (wld s)) ! j)"
      by simp
    with a b show "i = j" by (metis option.inject)
  }
  {
    fix ev s' room i
    assume h: "step ev s = Some s' \<and> session_tasks (mgr (wld s)) room = Some i \<and>
              session_tasks (mgr (wld s')) room \<noteq> Some i"
    show "task_state (tasks (mgr (wld s')) ! i) \<noteq> Pending"
    proof
      assume p: "task_state (tasks (mgr (wld s')) ! i) = Pending"
      from h have st: "step ev s = Some s'" by simp
      from step_timers [OF ok st]
      have ok': "timers_ok (mgr (wld s'))"
        and g: "tasks_grow (tasks (mgr (wld s))) (tasks (mgr (wld s')))" by simp_all
      from h timers_ok_stored [OF ok, of room i]
      have i: "i < length (tasks (mgr (wld s)))"
        and r: "task_room (tasks (mgr (wld s)) ! i) = room"
        by simp_all
      from tasks_growD [OF g i] r
      have i': "i < length (tasks (mgr (wld s')))"
        and r': "task_room (tasks (mgr (wld s')) ! i) = room"
        by simp_all
      from timers_ok_live [OF ok' i' p] r'
      have "session_tasks (mgr (wld s')) room = Some i" by simp
      with h show False by blast
    qed
  }
qed

theorem one_live_timer_per_room_witness:
  "run ex_trace (init_system [1]) = Some ex_run \<and>
   task_state (tasks (mgr (wld ex_run)) ! 1) = Pending \<and>
   task_state (tasks (mgr (wld ex_run)) ! 0) \<noteq> Pending"
proof -
  have e: "length (tasks (mgr (wld ex_run))) = 2"
    "task_state (tasks (mgr (wld ex_run)) ! 1) = Pending"
    "task_room (tasks (mgr (wld ex_run)) ! 0) = task_room (tasks (mgr (wld ex_run)) ! 1)"
    by code_simp+
  from one_live_timer_per_room [OF ex_run_reached]
  have "0 < length (tasks (mgr (wld ex_run))) \<and> 1 < length (tasks (mgr (wld ex_run))) \<and>
        task_state (tasks (mgr (wld ex_run)) ! 0) = Pending \<and>
        task_state (tasks (mgr (wld ex_run)) ! 1) = Pending \<and>
        task_room (tasks (mgr (wld ex_run)) ! 0) = task_room (tasks (mgr (wld ex_run)) ! 1)
        \<longrightarrow> (0::nat) = 1"
    by blast
  with e have "task_state (tasks (mgr (wld ex_run)) ! 0) \<noteq> Pending" by auto
  with e ex_run_reached show ?thesis by simp
qed

section \<open>At most one active session per room\<close>

lemma sessions_db_store:
  "sessions (db_store r d) = map (\<lambda>s. if session_id s = session_id r then r else s) (sessions d)"
  by (simp add: db_store_def)

lemma ids_db_store [simp]:
  "map session_id (sessions (db_store r d)) = map session_id (sessions d)"
  by (simp add: sessions_db_store)











lemma new_Session_fields [simp]:
  "end_time (new_Session room a b t now) = None"
  "room_id (new_Session room a b t now) = room"
  by (simp_all add: new_Session_def)





lemma sessions_ok_responses [simp]:
  "sessions_ok (w\<lparr>mgr := (mgr w)\<lparr>session_responses := rr\<rparr>\<rparr>) = sessions_ok w"
  by (simp add: sessions_ok_def)

lemma sessions_ok_del_responses [simp]:
  "sessions_ok (del_responses room w) = sessions_ok w"
  by (simp add: sessions_ok_def del_responses_def)

lemma sessions_ok_broadcaster [simp]:
  "sessions_ok (broadcaster room m t w) = sessions_ok w"
  by (simp add: sessions_ok_def broadcaster_def)











text \<open>
  The guard of \<open>start_new_initial_session\<close> reads the manager's dictionary only, and the
  entry is assigned after the awaited commit. Two calls for an empty room that have both
  passed the guard each insert a row.
\<close>

lemma start_new_initial_session_guard:
  "start_new_initial_session room a b now oks w =
     (case room_sessions (mgr w) room of
        Some s \<Rightarrow> (w, Some s)
      | None \<Rightarrow> start_after_guard room a b now oks w)"
  by (simp add: start_new_initial_session_def start_after_guard_def split: option.splits)

lemma overlapping_starts_two_open_rows:
  "room_sessions (mgr ex_empty) 1 = None \<and>
   sessions (db (fst (start_after_guard 1 1 2 1 []
                        (fst (start_after_guard 1 1 2 0 [] ex_empty))))) =
     [\<lparr>session_id = 1, room_id = 1, user_a_id = 1, user_b_id = 2, topic = topic_1_situation,
       start_time = 0, end_time = None, extension_used = False\<rparr>,
      \<lparr>session_id = 2, room_id = 1, user_a_id = 1, user_b_id = 2, topic = topic_1_situation,
       start_time = 1, end_time = None, extension_used = False\<rparr>]"
  by code_simp



section \<open>Per-room FIFO delivery\<close>

lemma keys_dict_set: "set (map fst (dict_set k v d)) = insert k (set (map fst d))"
  by (induction d) auto

lemma distinct_dict_set: "distinct (map fst d) \<Longrightarrow> distinct (map fst (dict_set k v d))"
proof (induction d)
  case Nil
  then show ?case by simp
next
  case (Cons p d)
  then show ?case using keys_dict_set [of k v d] by (auto simp del: set_map)
qed

lemma distinct_dict_del: "distinct (map fst d) \<Longrightarrow> distinct (map fst (dict_del k d))"
  by (simp add: dict_del_def distinct_map_filter)

lemma keys_ok_connect: "keys_ok c \<Longrightarrow> keys_ok (connect ws room u c)"
  by (auto simp: keys_ok_def connect_def Let_def get_active_connections_for_room_def
      distinct_dict_set split: option.splits if_splits)

lemma keys_ok_disconnect: "keys_ok c \<Longrightarrow> keys_ok (disconnect room u c)"
  by (auto simp: keys_ok_def disconnect_def Let_def distinct_dict_del
      split: option.splits if_splits)

lemma active_process [simp]:
  "active_connections (fst (process_messages room f c)) = active_connections c"
  by (simp add: process_messages_def Let_def split: option.splits list.splits)

lemma active_broadcast:
  "broadcast_to_room room m t c = Queued c' \<Longrightarrow> active_connections c' = active_connections c"
  by (auto simp: broadcast_to_room_def Let_def split: option.splits if_splits)

lemma queue_broadcast:
  "broadcast_to_room r m t c = Queued c' \<Longrightarrow>
   queue_of c' room = queue_of c room @ (if r = room then [(m, t)] else [])"
  by (auto simp: broadcast_to_room_def Let_def queue_of_def split: option.splits if_splits)

lemma broadcast_all_fifo:
  "broadcast_all items c = Some c' \<Longrightarrow>
   active_connections c' = active_connections c \<and>
   queue_of c' room = queue_of c room @ map snd (filter (\<lambda>item. fst item = room) items)"
proof (induction items arbitrary: c)
  case Nil
  then show ?case by simp
next
  case (Cons item items)
  from Cons.prems obtain c1 where
    c1: "broadcast_to_room (fst item) (fst (snd item)) (snd (snd item)) c = Queued c1"
    and rest: "broadcast_all items c1 = Some c'"
    by (auto split: put_result.splits)
  from Cons.IH [OF rest] active_broadcast [OF c1] queue_broadcast [OF c1, of room]
  show ?case by auto
qed

lemma queue_connect: "suffix (queue_of (connect ws r u c) room) (queue_of c room)"
  by (auto simp: connect_def Let_def queue_of_def split: option.splits)

lemma queue_disconnect: "suffix (queue_of (disconnect r u c) room) (queue_of c room)"
  by (auto simp: disconnect_def Let_def queue_of_def split: option.splits)

lemma sockets_once:
  assumes "distinct (map fst d)"
  shows "length (filter (\<lambda>(ws, uid). uid = u \<and> P ws) (sockets_to_send d t)) \<le> 1"
proof -
  have a: "length (filter (\<lambda>(ws, uid). uid = u \<and> P ws) (map (\<lambda>(uid, ws). (ws, uid)) d)) \<le> 1"
    using assms
  proof (induction d)
    case Nil
    then show ?case by simp
  next
    case (Cons p d)
    have "fst p = u \<Longrightarrow> filter (\<lambda>(ws, uid). uid = u \<and> P ws) (map (\<lambda>(uid, ws). (ws, uid)) d) = []"
      using Cons.prems by (auto simp: filter_empty_conv image_iff)
    with Cons show ?case by (cases p) auto
  qed
  show ?thesis
    using a by (auto simp: sockets_to_send_def Let_def split: option.splits)
qed

lemma observed_append [simp]: "observed room u (xs @ ys) = observed room u xs @ observed room u ys"
  by (simp add: observed_def)

lemma filter_length_mono:
  "(\<And>x. P x \<Longrightarrow> Q x) \<Longrightarrow> length (filter P xs) \<le> length (filter Q xs)"
  by (induction xs) auto

lemma observed_map:
  "observed room u (map (\<lambda>(ws, uid). (room', uid, ws, m)) xs)
     = replicate (length (filter (\<lambda>(ws, uid). room' = room \<and> uid = u) xs)) m"
  by (induction xs) (auto simp: observed_def)

lemma observed_sent:
  assumes "distinct (map fst d)"
  shows "observed room u (map (\<lambda>(ws, uid). (room', uid, ws, m))
           (filter (\<lambda>(ws, uid). ws \<notin> set failed) (sockets_to_send d t))) = [] \<or>
         observed room u (map (\<lambda>(ws, uid). (room', uid, ws, m))
           (filter (\<lambda>(ws, uid). ws \<notin> set failed) (sockets_to_send d t))) = [m]"
proof -
  let ?xs = "filter (\<lambda>(ws, uid). ws \<notin> set failed) (sockets_to_send d t)"
  let ?n = "length (filter (\<lambda>(ws, uid). room' = room \<and> uid = u) ?xs)"
  have "?n \<le> length (filter (\<lambda>(ws, uid). uid = u \<and> ws \<notin> set failed) (sockets_to_send d t))"
    unfolding filter_filter by (rule filter_length_mono) auto
  also have "\<dots> \<le> 1" by (rule sockets_once [OF assms])
  finally have "?n = 0 \<or> ?n = 1" by linarith
  then show ?thesis
    unfolding observed_map by (auto simp del: length_0_conv filter_filter)
qed

lemma observed_other_room:
  "r \<noteq> room \<Longrightarrow> observed room u (map (\<lambda>(ws, uid). (r, uid, ws, m)) xs) = []"
  by (simp add: observed_map)

lemma keys_ok_room: "keys_ok c \<Longrightarrow> distinct (map fst (get_active_connections_for_room c r))"
  by (auto simp: keys_ok_def get_active_connections_for_room_def split: option.splits)

lemma process_fifo:
  assumes "keys_ok c"
  shows "\<exists>taken. queue_of c room = taken @ queue_of (fst (process_messages r f c)) room \<and>
           subseq (observed room u (snd (process_messages r f c))) (map fst taken)"
proof (cases "message_processor_tasks c r")
  case False
  then show ?thesis by (simp add: process_messages_def observed_def)
next
  case True
  show ?thesis
  proof (cases "pending_messages c r")
    case None
    with True show ?thesis by (simp add: process_messages_def observed_def queue_of_def)
  next
    case (Some q)
    show ?thesis
    proof (cases q)
      case Nil
      with True Some show ?thesis by (simp add: process_messages_def observed_def)
    next
      case (Cons x rest)
      let ?d = "get_active_connections_for_room c r"
      let ?sent = "map (\<lambda>(ws, uid). (r, uid, ws, fst x))
                     (filter (\<lambda>(ws, uid). ws \<notin> set f) (sockets_to_send ?d (snd x)))"
      have pm: "process_messages r f c =
                  (c\<lparr>pending_messages := (pending_messages c)(r \<mapsto> rest)\<rparr>,
                   if ?d = [] then [] else ?sent)"
        using True Some Cons by (simp add: process_messages_def Let_def)
      show ?thesis
      proof (cases "r = room")
        case False
        then have "observed room u (if ?d = [] then [] else ?sent) = []"
          by (simp add: observed_other_room) (simp add: observed_def)
        with False show ?thesis by (simp add: pm queue_of_def)
      next
        case r: True
        from observed_sent [OF keys_ok_room [OF assms], of room u r "fst x" f r "snd x"]
        have "observed room u ?sent = [] \<or> observed room u ?sent = [fst x]" .
        then have "subseq (observed room u (if ?d = [] then [] else ?sent)) (map fst [x])"
          by (auto simp: observed_def)
        moreover have "queue_of c room
            = [x] @ queue_of (c\<lparr>pending_messages := (pending_messages c)(r \<mapsto> rest)\<rparr>) room"
          using r Some Cons by (simp add: queue_of_def)
        ultimately show ?thesis unfolding pm fst_conv snd_conv by blast
      qed
    qed
  qed
qed

lemma wire_cleanup [simp]: "wire (cleanup room user_id now oks s) = wire s"
  by (simp add: cleanup_def Let_def split: option.splits)

lemma wire_on_join [simp]: "wire (on_join room user_id websocket now oks s) = wire s"
  by (simp add: on_join_def Let_def split: option.splits)

lemma wire_on_vote [simp]: "wire (on_vote room user_id is_yes now oks s) = wire s"
  by (simp add: on_vote_def split: option.splits)

lemma wire_on_chat [simp]: "wire (on_chat room user_id body now oks s) = wire s"
  by (simp add: on_chat_def split: option.splits)

lemma wire_on_tick [simp]: "wire (on_tick i now oks s) = wire s"
  by (simp add: on_tick_def Let_def split: prod.splits bool.splits)

lemma wire_on_dispatch [simp]:
  "wire (on_dispatch room failed s) = wire s @ snd (process_messages room failed (conn s))"
  by (simp add: on_dispatch_def split: prod.splits)

lemma wire_flush: "flush s = Some s' \<Longrightarrow> wire s' = wire s"
  by (auto simp: flush_def split: option.splits)

lemma keys_ok_process: "keys_ok c \<Longrightarrow> keys_ok (fst (process_messages r f c))"
  by (simp add: keys_ok_def)

lemma keys_ok_handle: "keys_ok (conn s) \<Longrightarrow> keys_ok (conn (handle ev s))"
  by (rule conn_handle_cases) (simp_all add: keys_ok_connect keys_ok_disconnect keys_ok_process)

lemma handle_fifo:
  assumes "keys_ok (conn s)"
  shows "\<exists>taken new. queue_of (conn s) room = taken @ queue_of (conn (handle ev s)) room \<and>
           wire (handle ev s) = wire s @ new \<and>
           subseq (observed room u new) (map fst taken)"
proof (cases ev)
  case (Join r user_id websocket now oks)
  have "suffix (queue_of (conn (handle ev s)) room) (queue_of (conn s) room)"
  proof -
    have "suffix (queue_of (disconnect r user_id
                    (disconnect r user_id (connect websocket r user_id (conn s)))) room)
            (queue_of (conn s) room)"
      using queue_disconnect [of r user_id
          "disconnect r user_id (connect websocket r user_id (conn s))" room]
        queue_disconnect [of r user_id "connect websocket r user_id (conn s)" room]
        queue_connect [of websocket r user_id "conn s" room]
      by (metis suffix_order.trans)
    then show ?thesis
      unfolding Join handle.simps conn_on_join
      by (simp add: queue_connect queue_disconnect)
  qed
  then obtain taken where "queue_of (conn s) room = taken @ queue_of (conn (handle ev s)) room"
    by (auto simp: suffix_def)
  moreover have "wire (handle ev s) = wire s @ []" using Join by simp
  moreover have "subseq (observed room u []) (map fst taken)" by (simp add: observed_def)
  ultimately show ?thesis by blast
next
  case (Leave r user_id now oks)
  have "suffix (queue_of (conn (handle ev s)) room) (queue_of (conn s) room)"
    unfolding Leave handle.simps conn_cleanup by (rule queue_disconnect)
  then obtain taken where "queue_of (conn s) room = taken @ queue_of (conn (handle ev s)) room"
    by (auto simp: suffix_def)
  moreover have "wire (handle ev s) = wire s @ []" using Leave by simp
  moreover have "subseq (observed room u []) (map fst taken)" by (simp add: observed_def)
  ultimately show ?thesis by blast
next
  case (Vote r user_id is_yes now oks)
  then have "queue_of (conn s) room = [] @ queue_of (conn (handle ev s)) room"
    "wire (handle ev s) = wire s @ []" "subseq (observed room u []) (map fst [])"
    by (simp_all add: observed_def)
  then show ?thesis by blast
next
  case (Chat r user_id body now oks)
  then have "queue_of (conn s) room = [] @ queue_of (conn (handle ev s)) room"
    "wire (handle ev s) = wire s @ []" "subseq (observed room u []) (map fst [])"
    by (simp_all add: observed_def)
  then show ?thesis by blast
next
  case (Tick i now oks)
  then have "queue_of (conn s) room = [] @ queue_of (conn (handle ev s)) room"
    "wire (handle ev s) = wire s @ []" "subseq (observed room u []) (map fst [])"
    by (simp_all add: observed_def)
  then show ?thesis by blast
next
  case (Dispatch r failed)
  from process_fifo [OF assms, of room r failed u] obtain taken where
    "queue_of (conn s) room = taken @ queue_of (fst (process_messages r failed (conn s))) room"
    "subseq (observed room u (snd (process_messages r failed (conn s)))) (map fst taken)"
    by blast
  with Dispatch show ?thesis by auto
qed

lemma step_fifo:
  assumes inv: "fifo_inv room u s E" and st: "step ev s = Some s'"
  shows "fifo_inv room u s' (E @ emitted room ev s)"
proof -
  from inv have k: "keys_ok (conn s)" by (simp add: fifo_inv_def)
  from inv obtain pre where pre: "E = pre @ queue_of (conn s) room"
    "subseq (observed room u (wire s)) (map fst pre)"
    by (auto simp: fifo_inv_def)
  from handle_fifo [OF k, of room ev u] obtain taken new where
    h: "queue_of (conn s) room = taken @ queue_of (conn (handle ev s)) room"
      "wire (handle ev s) = wire s @ new"
      "subseq (observed room u new) (map fst taken)"
    by blast
  from st obtain c where c: "broadcast_all (outbox (wld (handle ev s))) (conn (handle ev s)) = Some c"
    and s': "conn s' = c" "wire s' = wire (handle ev s)"
    by (auto simp: step_def flush_def split: option.splits)
  from broadcast_all_fifo [OF c, of room]
  have a: "active_connections c = active_connections (conn (handle ev s))"
    and q: "queue_of c room = queue_of (conn (handle ev s)) room @ emitted room ev s"
    by (simp_all add: emitted_def)
  from keys_ok_handle [OF k, of ev] a s' have k': "keys_ok (conn s')" by (simp add: keys_ok_def)
  from pre(1) h(1) q s'(1)
  have e: "E @ emitted room ev s = (pre @ taken) @ queue_of (conn s') room" by simp
  from pre(2) h(3) have "subseq (observed room u (wire s) @ observed room u new)
                           (map fst pre @ map fst taken)"
    by (rule list_emb_append_mono)
  with h(2) s'(2) have "subseq (observed room u (wire s')) (map fst (pre @ taken))" by simp
  with k' e show ?thesis unfolding fifo_inv_def by blast
qed

lemma run_fifo:
  "fifo_inv room u s E \<Longrightarrow> run evs s = Some s' \<Longrightarrow> fifo_inv room u s' (E @ entered room evs s)"
proof (induction evs arbitrary: s E)
  case Nil
  then show ?case by simp
next
  case (Cons ev evs)
  from Cons.prems(2) obtain s1 where s1: "step ev s = Some s1" "run evs s1 = Some s'"
    by (auto split: option.splits)
  from step_fifo [OF Cons.prems(1) s1(1)] have "fifo_inv room u s1 (E @ emitted room ev s)" .
  from Cons.IH [OF this s1(2)] s1(1) show ?case by simp
qed

lemma init_fifo: "fifo_inv room u (init_system rooms) []"
  by (simp add: fifo_inv_def keys_ok_def init_system_def queue_of_def observed_def)

lemma process_messages_head:
  assumes "message_processor_tasks c room" "pending_messages c room = Some (item # rest)"
  shows "pending_messages (fst (process_messages room failed c)) room = Some rest \<and>
         (\<forall>x \<in> set (snd (process_messages room failed c)).
            fst x = room \<and> snd (snd (snd x)) = fst item)"
  using assms by (auto simp: process_messages_def Let_def)

lemma wire_handle: "(\<forall>r f. ev \<noteq> Dispatch r f) \<Longrightarrow> wire (handle ev s) = wire s"
  by (cases ev) simp_all

text \<open>
  C3. Along every run from the initial system, for every room and user: the items put into
  the room's queue, in the order of their \<open>put\<close>, are some items that have left the queue
  followed by the items the queue holds now, and what the user has been sent in the room is
  a subsequence of the items that have left, in the same order: nothing is sent twice, and
  nothing is sent before an item that was put earlier. One iteration of \<open>process_messages\<close>
  on a non-empty queue removes the oldest item and sends only that item's payload, to
  websockets of that room. No handler other than the room's dispatcher sends anything
  through a websocket of the room: joins, leaves, votes, chats and timers leave \<open>wire\<close> as
  it is and pass their messages to the queue.
\<close>

theorem per_room_fifo_delivery:
  "(run evs (init_system rooms) = Some s \<longrightarrow>
      (\<exists>taken. entered room evs (init_system rooms) = taken @ queue_of (conn s) room \<and>
               subseq (observed room user_id (wire s)) (map fst taken))) \<and>
   (message_processor_tasks c room \<and> pending_messages c room = Some (item # rest) \<longrightarrow>
      pending_messages (fst (process_messages room failed c)) room = Some rest \<and>
      (\<forall>x \<in> set (snd (process_messages room failed c)).
         fst x = room \<and> snd (snd (snd x)) = fst item)) \<and>
   ((\<forall>r f. ev \<noteq> Dispatch r f) \<longrightarrow> wire (handle ev s0) = wire s0) \<and>
   (flush s0 = Some s1 \<longrightarrow> wire s1 = wire s0)"
proof (intro conjI impI)
  assume r: "run evs (init_system rooms) = Some s"
  from run_fifo [OF init_fifo r, of room user_id]
  show "\<exists>taken. entered room evs (init_system rooms) = taken @ queue_of (conn s) room \<and>
               subseq (observed room user_id (wire s)) (map fst taken)"
    by (simp add: fifo_inv_def)
next
  assume "message_processor_tasks c room \<and> pending_messages c room = Some (item # rest)"
  then show "pending_messages (fst (process_messages room failed c)) room = Some rest"
    and "\<forall>x \<in> set (snd (process_messages room failed c)).
         fst x = room \<and> snd (snd (snd x)) = fst item"
    using process_messages_head [of c room item rest failed] by simp_all
next
  assume "\<forall>r f. ev \<noteq> Dispatch r f"
  then show "wire (handle ev s0) = wire s0" by (rule wire_handle)
next
  assume "flush s0 = Some s1"
  then show "wire s1 = wire s0" by (rule wire_flush)
qed

theorem per_room_fifo_delivery_witness:
  "run ex_chat (init_system [1]) = Some ex_chatted \<and>
   subseq (observed 1 ''2'' (wire ex_chatted)) (map fst (entered 1 ex_chat (init_system [1]))) \<and>
   length (observed 1 ''2'' (wire ex_chatted)) = 3 \<and>
   length (entered 1 ex_chat (init_system [1])) = 4"
proof -
  have "case run ex_chat (init_system [1]) of None \<Rightarrow> False | Some s \<Rightarrow> True"
    by code_simp
  then have reached: "run ex_chat (init_system [1]) = Some ex_chatted"
    by (auto simp: ex_chatted_def split: option.splits)
  have n: "length (observed 1 ''2'' (wire ex_chatted)) = 3"
    "length (entered 1 ex_chat (init_system [1])) = 4"
    by code_simp+
  from per_room_fifo_delivery [where evs = ex_chat and rooms = "[1]" and s = ex_chatted
      and room = 1 and user_id = "''2''"] reached
  obtain taken where t: "entered 1 ex_chat (init_system [1]) = taken @ queue_of (conn ex_chatted) 1"
    "subseq (observed 1 ''2'' (wire ex_chatted)) (map fst taken)"
    by blast
  from t(2) have "subseq (observed 1 ''2'' (wire ex_chatted))
                    (map fst taken @ map fst (queue_of (conn ex_chatted) 1))"
    by (rule list_emb_prefix)
  with t(1) have "subseq (observed 1 ''2'' (wire ex_chatted))
                    (map fst (entered 1 ex_chat (init_system [1])))"
    by simp
  with reached n show ?thesis by simp
qed

end
